theory Spec2Isabelle
  imports Main "HOL-Library.Sublist" "HOL-Library.Word"
begin

unbundle bit_operations_syntax

section \<open>RDF terms, quads and JavaScript values\<close>

text \<open>
  The engine of \<^verbatim>\<open>validation-engine.js\<close> works on RDF/JS terms. A literal has a lexical
  value, a language tag (empty when it has none) and a datatype. The datatype is a named
  node, except that the literal constructor keeps any truthy value it is given in its
  place, and \<^verbatim>\<open>withSubstitutions\<close> gives it a number.
\<close>

datatype rdf_term =
    NamedNode string
  | BlankNode string
  | Literal string string literal_datatype
and literal_datatype =
    Datatype rdf_term
  | DatatypeNumber "32 word"

text \<open>
  A constraint parameter is bound to a term or to a list-valued node with
  \<^verbatim>\<open>termType === 'Collection'\<close> and an \<^verbatim>\<open>elements\<close> array.
\<close>

datatype param_node =
    Term rdf_term
  | Collection "param_node list"

type_synonym quad = "rdf_term \<times> rdf_term \<times> rdf_term"

type_synonym dataGraph = "quad list"

text \<open>\<^verbatim>\<open>node.value\<close> of a term.\<close>

fun termValue :: "rdf_term \<Rightarrow> string" where
  "termValue (NamedNode v) = v"
| "termValue (BlankNode v) = v"
| "termValue (Literal v l d) = v"

text \<open>
  Modelled from the spec: \<^verbatim>\<open>T('prefix:local')\<close> of \<^verbatim>\<open>./rdfquery\<close>, which is not part of the
  engine's file, builds the named node of a prefixed name; it expands the three
  vocabularies the engine names.
\<close>

definition T :: "string \<Rightarrow> rdf_term" where
  "T qname =
     (let p = takeWhile (\<lambda>c. c \<noteq> CHR '':'') qname;
          l = drop (Suc (length p)) qname
      in NamedNode
           ((if p = ''sh'' then ''http://www.w3.org/ns/shacl#''
             else if p = ''rdf'' then ''http://www.w3.org/1999/02/22-rdf-syntax-ns#''
             else if p = ''xsd'' then ''http://www.w3.org/2001/XMLSchema#''
             else p @ '':'') @ l))"

text \<open>
  Modelled from the spec: \<^verbatim>\<open>TermFactory.literal(value, languageOrDatatype)\<close> of the term
  factory, which is not part of the engine's file, with the RDF/JS literal constructor
  behind it. The engine calls it with no second argument, with a datatype term, or (in
  \<^verbatim>\<open>withSubstitutions\<close>) with a number. A second argument that is not a string is taken
  for the datatype when it is truthy; otherwise the literal is a plain one, with no
  language tag and the datatype \<^verbatim>\<open>xsd:string\<close>.
\<close>

datatype literal_arg =
    ArgAbsent
  | ArgDatatype rdf_term
  | ArgNumber "32 word"

definition literal :: "string \<Rightarrow> literal_arg \<Rightarrow> rdf_term" where
  "literal v arg =
     (case arg of
        ArgAbsent \<Rightarrow> Literal v [] (Datatype (T ''xsd:string''))
      | ArgDatatype d \<Rightarrow> Literal v [] (Datatype d)
      | ArgNumber n \<Rightarrow>
          (if n = 0 then Literal v [] (Datatype (T ''xsd:string''))
           else Literal v [] (DatatypeNumber n)))"

text \<open>
  What a validator may hand back to the engine: \<^verbatim>\<open>false\<close>, \<^verbatim>\<open>true\<close>, a string, an
  object with optional \<^verbatim>\<open>path\<close>, \<^verbatim>\<open>value\<close> and \<^verbatim>\<open>message\<close>, an array of such,
  \<^verbatim>\<open>null\<close>, \<^verbatim>\<open>undefined\<close> or a number.
\<close>

datatype js_value =
    JUndefined
  | JNull
  | JBool bool
  | JNumber int
  | JString string
  | JObject "rdf_term option" "rdf_term option" "string option"
  | JArray "js_value list"

text \<open>\<^verbatim>\<open>ToBoolean\<close>: the truthiness of a value.\<close>

fun truthy :: "js_value \<Rightarrow> bool" where
  "truthy JUndefined = False"
| "truthy JNull = False"
| "truthy (JBool b) = b"
| "truthy (JNumber n) = (n \<noteq> 0)"
| "truthy (JString s) = (s \<noteq> [])"
| "truthy (JObject p v m) = True"
| "truthy (JArray xs) = True"

text \<open>
  What a \<^verbatim>\<open>throw\<close> statement throws, and what \<^verbatim>\<open>this.validationError\<close> holds: an error
  object, or any other value (\<^verbatim>\<open>null\<close> before a run has thrown).
\<close>

datatype js_thrown =
    Error string
  | TypeError string
  | RangeError string
  | OtherValue js_value

fun truthyThrown :: "js_thrown \<Rightarrow> bool" where
  "truthyThrown (OtherValue v) = truthy v"
| "truthyThrown x = True"

datatype 'a completion =
    Normal 'a
  | Throw js_thrown

section \<open>JavaScript string operations\<close>

text \<open>\<^verbatim>\<open>arr.join(sep)\<close> on an array of strings.\<close>

fun join :: "string \<Rightarrow> string list \<Rightarrow> string" where
  "join sep [] = []"
| "join sep [x] = x"
| "join sep (x # y # ys) = x @ sep @ join sep (y # ys)"

text \<open>\<^verbatim>\<open>str.indexOf(pat)\<close>: the first position where \<open>pat\<close> starts, or \<open>None\<close> for -1.\<close>

fun indexOf :: "string \<Rightarrow> string \<Rightarrow> nat option" where
  "indexOf [] pat = (if pat = [] then Some 0 else None)"
| "indexOf (c # cs) pat =
     (if prefix pat (c # cs) then Some 0
      else map_option Suc (indexOf cs pat))"

text \<open>
  The replacement text of \<^verbatim>\<open>String.prototype.replace\<close> for a string pattern
  (ECMAScript GetSubstitution with no captures): \<^verbatim>\<open>$$\<close> is a dollar sign, \<^verbatim>\<open>$&\<close> the
  matched text, \<^verbatim>\<open>$`\<close> the text preceding the match, \<^verbatim>\<open>$'\<close> the text following it; any
  other character stands for itself.
\<close>

fun getSubstitution :: "string \<Rightarrow> string \<Rightarrow> string \<Rightarrow> string \<Rightarrow> string" where
  "getSubstitution matched preceding following [] = []"
| "getSubstitution matched preceding following [c] = [c]"
| "getSubstitution matched preceding following (c # d # r) =
     (if c = CHR ''$'' \<and> d = CHR ''$'' then CHR ''$'' # getSubstitution matched preceding following r
      else if c = CHR ''$'' \<and> d = CHR ''&'' then matched @ getSubstitution matched preceding following r
      else if c = CHR ''$'' \<and> d = CHR 0x60 then preceding @ getSubstitution matched preceding following r
      else if c = CHR ''$'' \<and> d = CHR 0x27 then following @ getSubstitution matched preceding following r
      else c # getSubstitution matched preceding following (d # r))"

text \<open>\<^verbatim>\<open>str.replace(pat, repl)\<close> with a string pattern: only the first occurrence.\<close>

definition replace :: "string \<Rightarrow> string \<Rightarrow> string \<Rightarrow> string" where
  "replace str pat repl =
     (case indexOf str pat of
        None \<Rightarrow> str
      | Some i \<Rightarrow>
          (let preceding = take i str;
               following = drop (i + length pat) str
           in preceding @ getSubstitution pat preceding following repl @ following))"

section \<open>Labels and message templates\<close>

text \<open>
  \<^verbatim>\<open>for (const prefix in store.namespaces)\<close> over the namespaces in the object's
  enumeration order, kept as an association list of (prefix, namespace IRI).
\<close>

fun namespaceLoop :: "(string \<times> string) list \<Rightarrow> string \<Rightarrow> string" where
  "namespaceLoop [] v = ''<'' @ v @ ''>''"
| "namespaceLoop ((p, ns) # rest) v =
     (if indexOf v ns = Some 0 then p @ '':'' @ drop (length ns) v
      else namespaceLoop rest v)"

fun nodeLabel :: "param_node \<Rightarrow> (string \<times> string) list \<Rightarrow> string" where
  "nodeLabel (Collection elements) namespaces =
     join '', '' (map (\<lambda>el. nodeLabel el namespaces) elements)"
| "nodeLabel (Term (NamedNode v)) namespaces = namespaceLoop namespaces v"
| "nodeLabel (Term (BlankNode v)) namespaces = ''Blank node '' @ v"
| "nodeLabel (Term (Literal v l d)) namespaces = v"

section \<open>Shapes, constraints and the engine's state\<close>

text \<open>
  Modelled from the spec: the validator functions of the constraint components, which
  are not part of the engine's file. The spec gives their contract
  (\<^verbatim>\<open>execute(focusNode, valueNodeOrAbsent, constraint)\<close> returning an outcome, logical
  combinators delegating into sub-shapes). A validator runs inside the engine: it may
  return a value, throw, or ask whether a node conforms to a shape, which re-enters
  \<^verbatim>\<open>validateNodeAgainstShape\<close> on the same engine and hands the validator the negated
  answer.
\<close>

datatype validator_prog =
    Return js_value
  | Raise js_thrown
  | NodeConformsToShape rdf_term rdf_term "bool \<Rightarrow> validator_prog"

text \<open>\<^verbatim>\<open>execute(focusNode, valueNode, constraint)\<close>; the validator reads the constraint's
  \<^verbatim>\<open>paramValue\<close>.\<close>

type_synonym validationFunction = "rdf_term \<Rightarrow> rdf_term option \<Rightarrow> rdf_term \<Rightarrow> validator_prog"

record ConstraintComponent =
  node :: rdf_term
  propertyValidationFunction :: "validationFunction option"
  propertyValidationFunctionGeneric :: bool
  nodeValidationFunction :: "validationFunction option"
  nodeValidationFunctionGeneric :: bool

text \<open>The attributes of a shape that the engine reads through \<^verbatim>\<open>constraint.shape\<close>.\<close>

record Shape_head =
  shapeNode :: rdf_term
  severity :: rdf_term
  path :: "rdf_term option"
  deactivated :: bool

record Constraint =
  shape :: Shape_head
  component :: ConstraintComponent
  paramValue :: rdf_term
  parameterValues :: "(string \<times> param_node) list"
  componentMessages :: "string list"

record Shape = Shape_head +
  getConstraints :: "Constraint list"
  getTargetNodes :: "dataGraph \<Rightarrow> rdf_term list"
  getValueNodes :: "rdf_term \<Rightarrow> dataGraph \<Rightarrow> rdf_term list"

text \<open>\<^verbatim>\<open>shape.isPropertyShape()\<close>: a property shape is a shape with a path.\<close>

definition isPropertyShape :: "'a Shape_head_scheme \<Rightarrow> bool" where
  "isPropertyShape s = (path s \<noteq> None)"

text \<open>
  The collaborators reached through \<^verbatim>\<open>this.context\<close>: the \<^verbatim>\<open>sh:message\<close> objects of a
  node in the shapes graph, the declared namespaces, the shapes with a target, the
  shape of a node, and the runtime's ToInt32 of the number that a numeric string
  denotes (floating point, left as a parameter).
\<close>

record Context =
  shapeMessages :: "rdf_term \<Rightarrow> rdf_term list"
  namespaces :: "(string \<times> string) list"
  getShapesWithTarget :: "Shape list"
  getShape :: "rdf_term \<Rightarrow> Shape"
  numericToInt32 :: "string \<Rightarrow> 32 word"

record ValidationEngine =
  ctx :: Context
  conformanceOnly :: bool
  results :: "quad list"
  recordErrorsLevel :: int
  violationsCount :: int
  validationErrorBatch :: int
  validationError :: js_thrown
  blankNodes :: nat

type_synonym 'a eng = "ValidationEngine \<Rightarrow> 'a completion \<times> ValidationEngine"

text \<open>Sequencing of two engine actions: a throw skips the rest.\<close>

definition bind :: "'a eng \<Rightarrow> ('a \<Rightarrow> 'b eng) \<Rightarrow> 'b eng" where
  "bind m f e = (case m e of (Throw x, e') \<Rightarrow> (Throw x, e') | (Normal a, e') \<Rightarrow> f a e')"

text \<open>The constructor: \<^verbatim>\<open>new ValidationEngine(context, conformanceOnly)\<close>.\<close>

definition newValidationEngine :: "Context \<Rightarrow> bool \<Rightarrow> ValidationEngine" where
  "newValidationEngine context conformance =
     \<lparr> ctx = context, conformanceOnly = conformance, results = [],
       recordErrorsLevel = 0, violationsCount = 0, validationErrorBatch = - 1,
       validationError = OtherValue JNull, blankNodes = 0 \<rparr>"

section \<open>Message templates\<close>

text \<open>
  \<^verbatim>\<open>StringToNumber\<close> of ECMAScript decides whether a string denotes a number: optional
  white space around a decimal literal (optional sign, \<^verbatim>\<open>Infinity\<close> or digits with an
  optional fraction and exponent) or around a binary, octal or hexadecimal integer
  literal; a string of white space only denotes 0. Strings are lists of code units
  below 256, so the white space is TAB, LF, VT, FF, CR, SP and NBSP.
\<close>

definition isStrWhiteSpaceChar :: "char \<Rightarrow> bool" where
  "isStrWhiteSpaceChar c = ((of_char c :: nat) \<in> {9, 10, 11, 12, 13, 32, 160})"

definition isDecimalDigit :: "char \<Rightarrow> bool" where
  "isDecimalDigit c = (48 \<le> (of_char c :: nat) \<and> (of_char c :: nat) \<le> 57)"

definition isHexDigit :: "char \<Rightarrow> bool" where
  "isHexDigit c =
     (isDecimalDigit c \<or> (97 \<le> (of_char c :: nat) \<and> (of_char c :: nat) \<le> 102) \<or>
      (65 \<le> (of_char c :: nat) \<and> (of_char c :: nat) \<le> 70))"

definition isOctalDigit :: "char \<Rightarrow> bool" where
  "isOctalDigit c = (48 \<le> (of_char c :: nat) \<and> (of_char c :: nat) \<le> 55)"

definition isBinaryDigit :: "char \<Rightarrow> bool" where
  "isBinaryDigit c = (c = CHR ''0'' \<or> c = CHR ''1'')"

definition strTrim :: "string \<Rightarrow> string" where
  "strTrim s = rev (dropWhile isStrWhiteSpaceChar (rev (dropWhile isStrWhiteSpaceChar s)))"

definition dropSign :: "string \<Rightarrow> string" where
  "dropSign s = (case s of [] \<Rightarrow> [] | c # t \<Rightarrow> if c = CHR ''+'' \<or> c = CHR ''-'' then t else s)"

definition isSignedInteger :: "string \<Rightarrow> bool" where
  "isSignedInteger s = (dropSign s \<noteq> [] \<and> list_all isDecimalDigit (dropSign s))"

definition isOptionalExponentPart :: "string \<Rightarrow> bool" where
  "isOptionalExponentPart s =
     (case s of [] \<Rightarrow> True | c # t \<Rightarrow> (c = CHR ''e'' \<or> c = CHR ''E'') \<and> isSignedInteger t)"

definition isStrUnsignedDecimalLiteral :: "string \<Rightarrow> bool" where
  "isStrUnsignedDecimalLiteral s =
     (s = ''Infinity'' \<or>
      (let ds = takeWhile isDecimalDigit s; r = dropWhile isDecimalDigit s
       in case r of
            [] \<Rightarrow> ds \<noteq> []
          | c # t \<Rightarrow>
              if c = CHR ''.''
              then (ds \<noteq> [] \<or> takeWhile isDecimalDigit t \<noteq> []) \<and>
                   isOptionalExponentPart (dropWhile isDecimalDigit t)
              else ds \<noteq> [] \<and> isOptionalExponentPart r))"

definition isNonDecimalIntegerLiteral :: "string \<Rightarrow> bool" where
  "isNonDecimalIntegerLiteral s =
     (case s of
        z # x # r \<Rightarrow>
          z = CHR ''0'' \<and> r \<noteq> [] \<and>
          (((x = CHR ''x'' \<or> x = CHR ''X'') \<and> list_all isHexDigit r) \<or>
           ((x = CHR ''o'' \<or> x = CHR ''O'') \<and> list_all isOctalDigit r) \<or>
           ((x = CHR ''b'' \<or> x = CHR ''B'') \<and> list_all isBinaryDigit r))
      | _ \<Rightarrow> False)"

definition isStringNumericLiteral :: "string \<Rightarrow> bool" where
  "isStringNumericLiteral s =
     (strTrim s = [] \<or> isStrUnsignedDecimalLiteral (dropSign (strTrim s)) \<or>
      isNonDecimalIntegerLiteral (strTrim s))"

text \<open>
  \<^verbatim>\<open>ToInt32\<close> of a string: a string that denotes no number is NaN and gives 0, white
  space gives 0, an infinity gives 0, and for any other numeric string the runtime's
  value is taken.
\<close>

definition stringToInt32 :: "(string \<Rightarrow> 32 word) \<Rightarrow> string \<Rightarrow> 32 word" where
  "stringToInt32 numeric s =
     (if \<not> isStringNumericLiteral s then 0
      else if strTrim s = [] then 0
      else if dropSign (strTrim s) = ''Infinity'' then 0
      else numeric s)"

text \<open>The letters \<^verbatim>\<open>A\<close> to \<^verbatim>\<open>Z\<close> and \<^verbatim>\<open>a\<close> to \<^verbatim>\<open>z\<close>, with one of which a language tag begins.\<close>

definition isAsciiLetter :: "char \<Rightarrow> bool" where
  "isAsciiLetter a =
     ((65 \<le> (of_char a :: nat) \<and> (of_char a :: nat) \<le> 90) \<or>
      (97 \<le> (of_char a :: nat) \<and> (of_char a :: nat) \<le> 122))"

text \<open>
  \<^verbatim>\<open>msg.language\<close> and \<^verbatim>\<open>msg.datatype\<close> coerced by the bitwise or. A term other than a
  literal has neither (undefined, NaN, 0). The language of a literal is a string. Its
  datatype is a term object, whose string form is no number (NaN, 0), or the number the
  literal was built with.
\<close>

fun languageToInt32 :: "(string \<Rightarrow> 32 word) \<Rightarrow> rdf_term \<Rightarrow> 32 word" where
  "languageToInt32 numeric (Literal v l d) = stringToInt32 numeric l"
| "languageToInt32 numeric t = 0"

fun datatypeToInt32 :: "rdf_term \<Rightarrow> 32 word" where
  "datatypeToInt32 (Literal v l (DatatypeNumber n)) = n"
| "datatypeToInt32 t = 0"

fun substitutionLoop :: "(string \<times> param_node) list \<Rightarrow> (string \<times> string) list \<Rightarrow> string \<Rightarrow> string" where
  "substitutionLoop [] nss str = str"
| "substitutionLoop ((key, v) # rest) nss str =
     (let label = nodeLabel v nss;
          str1 = replace str (''{$'' @ key @ ''}'') label;
          str2 = replace str1 (''{?'' @ key @ ''}'') label
      in substitutionLoop rest nss str2)"

definition withSubstitutions :: "Context \<Rightarrow> rdf_term \<Rightarrow> Constraint \<Rightarrow> rdf_term" where
  "withSubstitutions context msg constraint =
     (let str = substitutionLoop (parameterValues constraint) (namespaces context) (termValue msg)
      in literal str
           (ArgNumber (languageToInt32 (numericToInt32 context) msg OR datatypeToInt32 msg)))"

section \<open>Results\<close>

definition maxErrorsReached :: "ValidationEngine \<Rightarrow> bool" where
  "maxErrorsReached e =
     (if validationErrorBatch e = - 1 then False
      else violationsCount e \<ge> validationErrorBatch e)"

definition addResultProperty ::
  "rdf_term \<Rightarrow> rdf_term \<Rightarrow> rdf_term \<Rightarrow> ValidationEngine \<Rightarrow> ValidationEngine" where
  "addResultProperty result predicate object e =
     e\<lparr>results := results e @ [(result, predicate, object)]\<rparr>"

text \<open>
  Modelled from the spec: \<^verbatim>\<open>TermFactory.blankNode()\<close> of the term factory, which is not
  part of the engine's file; a new anonymous node is labelled by the count of those made
  so far.
\<close>

fun digits :: "nat \<Rightarrow> string" where
  "digits n =
     (if n < 10 then [char_of (48 + n)]
      else digits (n div 10) @ [char_of (48 + n mod 10)])"

declare digits.simps [simp del]

definition blankNode :: "ValidationEngine \<Rightarrow> rdf_term \<times> ValidationEngine" where
  "blankNode e = (BlankNode (''b'' @ digits (blankNodes e)), e\<lparr>blankNodes := Suc (blankNodes e)\<rparr>)"

definition createResult ::
  "Constraint \<Rightarrow> rdf_term \<Rightarrow> rdf_term option \<Rightarrow> ValidationEngine \<Rightarrow> rdf_term \<times> ValidationEngine" where
  "createResult constraint focusNode valueNode e =
     (let (result, e0) = blankNode e;
          sev = severity (shape constraint);
          sourceConstraintComponent = node (component constraint);
          sourceShape = shapeNode (shape constraint);
          e1 = addResultProperty result (T ''rdf:type'') (T ''sh:ValidationResult'') e0;
          e2 = addResultProperty result (T ''sh:resultSeverity'') sev e1;
          e3 = addResultProperty result (T ''sh:sourceConstraintComponent'') sourceConstraintComponent e2;
          e4 = addResultProperty result (T ''sh:sourceShape'') sourceShape e3;
          e5 = addResultProperty result (T ''sh:focusNode'') focusNode e4;
          e6 = (case valueNode of
                  Some v \<Rightarrow> addResultProperty result (T ''sh:value'') v e5
                | None \<Rightarrow> e5)
      in (result, e6))"

definition createResultMessages :: "rdf_term \<Rightarrow> Constraint \<Rightarrow> ValidationEngine \<Rightarrow> ValidationEngine" where
  "createResultMessages result constraint e =
     (let ms1 = shapeMessages (ctx e) (shapeNode (shape constraint));
          ms2 = (if length ms1 = 0
                 then map (\<lambda>m. literal m ArgAbsent) (componentMessages constraint)
                 else ms1);
          ms3 = (if length ms2 = 0
                 then shapeMessages (ctx e) (node (component constraint))
                 else ms2)
      in fold (\<lambda>m. addResultProperty result (T ''sh:resultMessage'')
                      (withSubstitutions (ctx e) m constraint)) ms3 e)"

text \<open>
  \<^verbatim>\<open>if (constraint.shape.isPropertyShape()) addResultProperty(result, sh:resultPath,
  constraint.shape.path)\<close>.
\<close>

definition addShapePath :: "rdf_term \<Rightarrow> Constraint \<Rightarrow> ValidationEngine \<Rightarrow> ValidationEngine" where
  "addShapePath result constraint e =
     (if isPropertyShape (shape constraint)
      then (case path (shape constraint) of
              Some p \<Rightarrow> addResultProperty result (T ''sh:resultPath'') p e
            | None \<Rightarrow> e)
      else e)"

text \<open>
  The test that opens each of the three branches: inside a suppressed evaluation, or in
  conformance-only mode, nothing is created and the answer is fixed.
\<close>

definition suppressed :: "ValidationEngine \<Rightarrow> bool option" where
  "suppressed e =
     (if recordErrorsLevel e > 0
      then (if conformanceOnly e then Some False else Some True)
      else if conformanceOnly e then Some False
      else None)"

fun createResultFromObject ::
  "js_value \<Rightarrow> Constraint \<Rightarrow> rdf_term \<Rightarrow> rdf_term option \<Rightarrow> bool eng" where
  "createResultFromObject (JBool False) constraint focusNode valueNode e =
     (case suppressed e of
        Some b \<Rightarrow> (Normal b, e)
      | None \<Rightarrow>
          (let (result, e1) = createResult constraint focusNode valueNode e;
               e2 = addShapePath result constraint e1;
               e3 = createResultMessages result constraint e2
           in (Normal True, e3)))"
| "createResultFromObject (JString obj) constraint focusNode valueNode e =
     (case suppressed e of
        Some b \<Rightarrow> (Normal b, e)
      | None \<Rightarrow>
          (let (result, e1) = createResult constraint focusNode valueNode e;
               e2 = addShapePath result constraint e1;
               e3 = addResultProperty result (T ''sh:resultMessage'')
                      (literal obj (ArgDatatype (T ''xsd:string''))) e2;
               e4 = createResultMessages result constraint e3
           in (Normal True, e4)))"
| "createResultFromObject JNull constraint focusNode valueNode e =
     (case suppressed e of
        Some b \<Rightarrow> (Normal b, e)
      | None \<Rightarrow>
          (let (result, e1) = createResult constraint focusNode None e
           in (Throw (TypeError ''Cannot read properties of null (reading 'path')''), e1)))"
| "createResultFromObject (JObject objPath objValue objMessage) constraint focusNode valueNode e =
     (case suppressed e of
        Some b \<Rightarrow> (Normal b, e)
      | None \<Rightarrow>
          (let (result, e1) = createResult constraint focusNode None e;
               e2 = (case objPath of
                       Some p \<Rightarrow> addResultProperty result (T ''sh:resultPath'') p e1
                     | None \<Rightarrow> addShapePath result constraint e1);
               e3 = (case objValue of
                       Some v \<Rightarrow> addResultProperty result (T ''sh:value'') v e2
                     | None \<Rightarrow>
                         (case valueNode of
                            Some v \<Rightarrow> addResultProperty result (T ''sh:value'') v e2
                          | None \<Rightarrow> e2));
               e4 = (if objMessage \<noteq> None \<and> objMessage \<noteq> Some []
                     then addResultProperty result (T ''sh:resultMessage'')
                            (literal (the objMessage) (ArgDatatype (T ''xsd:string''))) e3
                     else createResultMessages result constraint e3)
           in (Normal True, e4)))"
| "createResultFromObject (JArray elements) constraint focusNode valueNode e =
     (case suppressed e of
        Some b \<Rightarrow> (Normal b, e)
      | None \<Rightarrow>
          (let (result, e1) = createResult constraint focusNode None e;
               e2 = addShapePath result constraint e1;
               e3 = (case valueNode of
                       Some v \<Rightarrow> addResultProperty result (T ''sh:value'') v e2
                     | None \<Rightarrow> e2);
               e4 = createResultMessages result constraint e3
           in (Normal True, e4)))"
| "createResultFromObject obj constraint focusNode valueNode e = (Normal False, e)"

section \<open>Dispatch and traversal\<close>

text \<open>
  \<^verbatim>\<open>validateNodeAgainstShape\<close> and \<^verbatim>\<open>validateNodeAgainstConstraint\<close> call each other, through
  nested shapes and through validators that ask for conformance. The bodies below take
  the re-entrant \<^verbatim>\<open>validateNodeAgainstShape\<close> as the argument \<open>reenter\<close>; the functions
  proper tie the knot over the number of nested re-entries the call stack still holds,
  and a re-entry beyond it throws the runtime's RangeError.
\<close>

type_synonym shape_validation = "rdf_term \<Rightarrow> Shape \<Rightarrow> dataGraph \<Rightarrow> bool eng"

text \<open>\<^verbatim>\<open>validationFunction.execute(focusNode, valueNode, constraint)\<close>, run on the engine.\<close>

primrec execute :: "shape_validation \<Rightarrow> dataGraph \<Rightarrow> validator_prog \<Rightarrow> js_value eng" where
  "execute reenter g (Return v) = (\<lambda>e. (Normal v, e))"
| "execute reenter g (Raise x) = (\<lambda>e. (Throw x, e))"
| "execute reenter g (NodeConformsToShape n s k) =
     (\<lambda>e. case reenter n (getShape (ctx e) s) g e of
             (Throw x, e') \<Rightarrow> (Throw x, e')
           | (Normal foundViolations, e') \<Rightarrow> execute reenter g (k (\<not> foundViolations)) e')"

text \<open>\<^verbatim>\<open>for (a = 0; a < obj.length; a++) if (createResultFromObject(obj[a], ...)) found = true\<close>.\<close>

fun arrayLoop ::
  "js_value list \<Rightarrow> Constraint \<Rightarrow> rdf_term \<Rightarrow> rdf_term option \<Rightarrow> bool \<Rightarrow> bool eng" where
  "arrayLoop [] constraint focusNode valueNode found e = (Normal found, e)"
| "arrayLoop (obj # objs) constraint focusNode valueNode found e =
     (case createResultFromObject obj constraint focusNode valueNode e of
        (Throw x, e') \<Rightarrow> (Throw x, e')
      | (Normal b, e') \<Rightarrow> arrayLoop objs constraint focusNode valueNode (found \<or> b) e')"

text \<open>\<^verbatim>\<open>if (Array.isArray(obj)) ... else ...\<close>: the outcome of one execution, normalised.\<close>

definition normalise ::
  "js_value \<Rightarrow> Constraint \<Rightarrow> rdf_term \<Rightarrow> rdf_term option \<Rightarrow> bool eng" where
  "normalise obj constraint focusNode valueNode =
     (case obj of
        JArray objs \<Rightarrow> arrayLoop objs constraint focusNode valueNode False
      | _ \<Rightarrow> createResultFromObject obj constraint focusNode valueNode)"

text \<open>The loop of the generic branch: the validator is called for each value node.\<close>

fun genericLoop ::
  "shape_validation \<Rightarrow> validationFunction \<Rightarrow> rdf_term \<Rightarrow> rdf_term list \<Rightarrow> Constraint \<Rightarrow>
   dataGraph \<Rightarrow> bool \<Rightarrow> bool eng" where
  "genericLoop reenter vf focusNode [] constraint g errorFound e = (Normal errorFound, e)"
| "genericLoop reenter vf focusNode (valueNode # rest) constraint g errorFound e =
     (if maxErrorsReached e then (Normal errorFound, e)
      else
        (let e1 = e\<lparr>recordErrorsLevel := recordErrorsLevel e + 1\<rparr>
         in case execute reenter g (vf focusNode (Some valueNode) (paramValue constraint)) e1 of
              (Throw x, e2) \<Rightarrow> (Throw x, e2)
            | (Normal obj, e2) \<Rightarrow>
                (let e3 = e2\<lparr>recordErrorsLevel := recordErrorsLevel e2 - 1\<rparr>
                 in case normalise obj constraint focusNode (Some valueNode) e3 of
                      (Throw x, e4) \<Rightarrow> (Throw x, e4)
                    | (Normal iterationError, e4) \<Rightarrow>
                        (let e5 = (if iterationError
                                   then e4\<lparr>violationsCount := violationsCount e4 + 1\<rparr>
                                   else e4)
                         in genericLoop reenter vf focusNode rest constraint g
                              (errorFound \<or> iterationError) e5))))"

text \<open>The loop of the property-constraint branch: the nested shape for each value node.\<close>

fun propertyLoop ::
  "shape_validation \<Rightarrow> rdf_term list \<Rightarrow> Constraint \<Rightarrow> dataGraph \<Rightarrow> bool \<Rightarrow> bool eng" where
  "propertyLoop reenter [] constraint g errorFound e = (Normal errorFound, e)"
| "propertyLoop reenter (valueNode # rest) constraint g errorFound e =
     (case reenter valueNode (getShape (ctx e) (paramValue constraint)) g e of
        (Throw x, e') \<Rightarrow> (Throw x, e')
      | (Normal b, e') \<Rightarrow> propertyLoop reenter rest constraint g (errorFound \<or> b) e')"

definition validateNodeAgainstConstraint_body ::
  "shape_validation \<Rightarrow> rdf_term \<Rightarrow> rdf_term list \<Rightarrow> Constraint \<Rightarrow> dataGraph \<Rightarrow> bool eng" where
  "validateNodeAgainstConstraint_body reenter focusNode valueNodes constraint g e =
     (if maxErrorsReached e then (Normal True, e)
      else if T ''sh:PropertyConstraintComponent'' = node (component constraint)
      then propertyLoop reenter valueNodes constraint g False e
      else
        (let validationFunction =
               (if isPropertyShape (shape constraint)
                then propertyValidationFunction (component constraint)
                else nodeValidationFunction (component constraint))
         in case validationFunction of
              None \<Rightarrow>
                (Throw (Error (''Cannot find validator for constraint component '' @
                               termValue (node (component constraint)))), e)
            | Some vf \<Rightarrow>
                (let generic =
                       (if isPropertyShape (shape constraint)
                        then propertyValidationFunctionGeneric (component constraint)
                        else nodeValidationFunctionGeneric (component constraint))
                 in if generic
                    then genericLoop reenter vf focusNode valueNodes constraint g False e
                    else
                      (let e1 = e\<lparr>recordErrorsLevel := recordErrorsLevel e + 1\<rparr>
                       in case execute reenter g (vf focusNode None (paramValue constraint)) e1 of
                            (Throw x, e2) \<Rightarrow> (Throw x, e2)
                          | (Normal obj, e2) \<Rightarrow>
                              normalise obj constraint focusNode None
                                (e2\<lparr>recordErrorsLevel := recordErrorsLevel e2 - 1\<rparr>)))))"

fun constraintsLoop ::
  "shape_validation \<Rightarrow> rdf_term \<Rightarrow> rdf_term list \<Rightarrow> Constraint list \<Rightarrow> dataGraph \<Rightarrow> bool \<Rightarrow>
   bool eng" where
  "constraintsLoop reenter focusNode valueNodes [] g errorFound e = (Normal errorFound, e)"
| "constraintsLoop reenter focusNode valueNodes (constraint # rest) g errorFound e =
     (case validateNodeAgainstConstraint_body reenter focusNode valueNodes constraint g e of
        (Throw x, e') \<Rightarrow> (Throw x, e')
      | (Normal b, e') \<Rightarrow> constraintsLoop reenter focusNode valueNodes rest g (errorFound \<or> b) e')"

definition validateNodeAgainstShape_body :: "shape_validation \<Rightarrow> shape_validation" where
  "validateNodeAgainstShape_body reenter focusNode shp g e =
     (if maxErrorsReached e then (Normal True, e)
      else if deactivated shp then (Normal False, e)
      else
        (let constraints = getConstraints shp;
             valueNodes = getValueNodes shp focusNode g
         in constraintsLoop reenter focusNode valueNodes constraints g False e))"

text \<open>
  \<^verbatim>\<open>const validationFunction = constraint.shape.isPropertyShape() ? ... : ...\<close> and
  \<^verbatim>\<open>const generic = ...\<close>, as \<open>validateNodeAgainstConstraint_body\<close> has them.
\<close>

abbreviation validationFunctionOf :: "Constraint \<Rightarrow> validationFunction option" where
  "validationFunctionOf constraint \<equiv>
     (if isPropertyShape (shape constraint)
      then propertyValidationFunction (component constraint)
      else nodeValidationFunction (component constraint))"

abbreviation genericOf :: "Constraint \<Rightarrow> bool" where
  "genericOf constraint \<equiv>
     (if isPropertyShape (shape constraint)
      then propertyValidationFunctionGeneric (component constraint)
      else nodeValidationFunctionGeneric (component constraint))"

abbreviation readPathOfNull :: js_thrown where
  "readPathOfNull \<equiv> TypeError ''Cannot read properties of null (reading 'path')''"

abbreviation enter :: "ValidationEngine \<Rightarrow> ValidationEngine" where
  "enter e \<equiv> e\<lparr>recordErrorsLevel := recordErrorsLevel e + 1\<rparr>"

abbreviation leave :: "ValidationEngine \<Rightarrow> ValidationEngine" where
  "leave e \<equiv> e\<lparr>recordErrorsLevel := recordErrorsLevel e - 1\<rparr>"

definition stackOverflow :: shape_validation where
  "stackOverflow focusNode shp g e = (Throw (RangeError ''Maximum call stack size exceeded''), e)"

primrec reentry :: "nat \<Rightarrow> shape_validation" where
  "reentry 0 = stackOverflow"
| "reentry (Suc depth) = validateNodeAgainstShape_body (reentry depth)"

definition validateNodeAgainstShape :: "nat \<Rightarrow> shape_validation" where
  "validateNodeAgainstShape depth = validateNodeAgainstShape_body (reentry depth)"

definition validateNodeAgainstConstraint ::
  "nat \<Rightarrow> rdf_term \<Rightarrow> rdf_term list \<Rightarrow> Constraint \<Rightarrow> dataGraph \<Rightarrow> bool eng" where
  "validateNodeAgainstConstraint depth = validateNodeAgainstConstraint_body (reentry depth)"

fun focusNodesLoop :: "nat \<Rightarrow> rdf_term list \<Rightarrow> Shape \<Rightarrow> dataGraph \<Rightarrow> bool \<Rightarrow> bool eng" where
  "focusNodesLoop depth [] shp g foundError e = (Normal foundError, e)"
| "focusNodesLoop depth (focusNode # rest) shp g foundError e =
     (case validateNodeAgainstShape depth focusNode shp g e of
        (Throw x, e') \<Rightarrow> (Throw x, e')
      | (Normal b, e') \<Rightarrow> focusNodesLoop depth rest shp g (foundError \<or> b) e')"

fun shapesLoop :: "nat \<Rightarrow> Shape list \<Rightarrow> dataGraph \<Rightarrow> bool \<Rightarrow> bool eng" where
  "shapesLoop depth [] g foundError e = (Normal foundError, e)"
| "shapesLoop depth (shp # rest) g foundError e =
     (case focusNodesLoop depth (getTargetNodes shp g) shp g foundError e of
        (Throw x, e') \<Rightarrow> (Throw x, e')
      | (Normal b, e') \<Rightarrow> shapesLoop depth rest g b e')"

text \<open>
  \<^verbatim>\<open>validateAll(rdfDataGraph)\<close>: the boolean it returns and the engine it leaves. The
  \<^verbatim>\<open>try\<close> block is \<open>shapesLoop\<close> on the engine with the fatal error and the results
  cleared; the \<^verbatim>\<open>catch\<close> stores what was thrown.
\<close>

definition validateAll :: "nat \<Rightarrow> dataGraph \<Rightarrow> ValidationEngine \<Rightarrow> bool \<times> ValidationEngine" where
  "validateAll depth rdfDataGraph e =
     (if maxErrorsReached e then (True, e)
      else
        (let e1 = e\<lparr>validationError := OtherValue JNull\<rparr>;
             e2 = e1\<lparr>results := []\<rparr>
         in case shapesLoop depth (getShapesWithTarget (ctx e2)) rdfDataGraph False e2 of
              (Normal foundError, e3) \<Rightarrow> (foundError, e3)
            | (Throw x, e3) \<Rightarrow> (True, e3\<lparr>validationError := x\<rparr>)))"

datatype ValidationReport = ValidationReport "quad list"

text \<open>
  \<^verbatim>\<open>getReport()\<close>: \<^verbatim>\<open>if (this.validationError)\<close> tests the stored value for truthiness, so
  a stored \<^verbatim>\<open>null\<close>, whether left by \<^verbatim>\<open>validateAll\<close> on entry or thrown and caught, takes
  the branch of the report. The logging before the \<^verbatim>\<open>throw\<close> changes nothing of the engine.
\<close>

definition getReport :: "ValidationReport eng" where
  "getReport e =
     (if truthyThrown (validationError e) then (Throw (validationError e), e)
      else (Normal (ValidationReport (results e)), e))"

text \<open>The outcome of the \<open>n\<close>-th further call of \<^verbatim>\<open>getReport\<close> following a first one.\<close>

primrec getReportAgain :: "nat \<Rightarrow> ValidationReport eng" where
  "getReportAgain 0 e = getReport e"
| "getReportAgain (Suc n) e = getReportAgain n (snd (getReport e))"

text \<open>The materialised validation results: the nodes typed \<^verbatim>\<open>sh:ValidationResult\<close>.\<close>

definition resultNodes :: "quad list \<Rightarrow> rdf_term list" where
  "resultNodes qs =
     map fst (filter (\<lambda>(s, p, ob). p = T ''rdf:type'' \<and> ob = T ''sh:ValidationResult'') qs)"

text \<open>The source shapes of the results: the objects of \<^verbatim>\<open>sh:sourceShape\<close>.\<close>

definition sourceShapes :: "quad list \<Rightarrow> rdf_term list" where
  "sourceShapes qs = map (\<lambda>(s, p, ob). ob) (filter (\<lambda>(s, p, ob). p = T ''sh:sourceShape'') qs)"

section \<open>Reference definitions\<close>

text \<open>
  Replacing the first occurrence of a placeholder, written directly on the string: the
  text up to the first position where \<open>pat\<close> starts, the label, and the text behind the
  occurrence; a string without \<open>pat\<close> is left as it is.
\<close>

fun replaceFirst :: "string \<Rightarrow> string \<Rightarrow> string \<Rightarrow> string" where
  "replaceFirst [] pat lab = (if pat = [] then lab else [])"
| "replaceFirst (c # cs) pat lab =
     (if prefix pat (c # cs) then lab @ drop (length pat) (c # cs)
      else c # replaceFirst cs pat lab)"

text \<open>
  The outcomes that \<^verbatim>\<open>createResultFromObject\<close> takes for a violation: \<^verbatim>\<open>false\<close>, a
  string, and whatever has \<^verbatim>\<open>typeof obj === 'object'\<close> (an object, an array, \<^verbatim>\<open>null\<close>).
\<close>

fun isViolation :: "js_value \<Rightarrow> bool" where
  "isViolation (JBool b) = (\<not> b)"
| "isViolation (JString s) = True"
| "isViolation JNull = True"
| "isViolation (JObject p v m) = True"
| "isViolation (JArray xs) = True"
| "isViolation obj = False"

text \<open>The same for the outcome of one execution, where an array stands for its elements.\<close>

definition reportsViolation :: "js_value \<Rightarrow> bool" where
  "reportsViolation obj =
     (case obj of JArray objs \<Rightarrow> list_ex isViolation objs | _ \<Rightarrow> isViolation obj)"

section \<open>What a call may change\<close>

text \<open>
  \<open>grows\<close>: only quads were appended (and blank nodes made). \<open>frame\<close>: what every
  dispatch function guarantees about the engine it leaves, whether it returns or throws.
\<close>

definition grows :: "ValidationEngine \<Rightarrow> ValidationEngine \<Rightarrow> bool" where
  "grows e e' \<longleftrightarrow>
     ctx e' = ctx e \<and> conformanceOnly e' = conformanceOnly e \<and>
     validationErrorBatch e' = validationErrorBatch e \<and> validationError e' = validationError e \<and>
     violationsCount e' = violationsCount e \<and> recordErrorsLevel e' = recordErrorsLevel e \<and>
     (\<exists>new. results e' = results e @ new)"

definition frame :: "ValidationEngine \<Rightarrow> 'a completion \<Rightarrow> ValidationEngine \<Rightarrow> bool" where
  "frame e r e' \<longleftrightarrow>
     ctx e' = ctx e \<and> conformanceOnly e' = conformanceOnly e \<and>
     validationErrorBatch e' = validationErrorBatch e \<and> validationError e' = validationError e \<and>
     violationsCount e \<le> violationsCount e' \<and>
     recordErrorsLevel e \<le> recordErrorsLevel e' \<and>
     ((\<exists>a. r = Normal a) \<longrightarrow> recordErrorsLevel e' = recordErrorsLevel e) \<and>
     (\<exists>new. results e' = results e @ new) \<and>
     (0 < recordErrorsLevel e \<longrightarrow> results e' = results e \<and> blankNodes e' = blankNodes e)"

definition framed :: "shape_validation \<Rightarrow> bool" where
  "framed reenter \<longleftrightarrow> (\<forall>n s g e r e'. reenter n s g e = (r, e') \<longrightarrow> frame e r e')"

text \<open>
  \<open>adds n\<close>: the call appended results only, each with one \<^verbatim>\<open>sh:sourceShape\<close>, the
  node \<open>n\<close>.
\<close>

definition attributed :: "rdf_term \<Rightarrow> quad list \<Rightarrow> bool" where
  "attributed n qs \<longleftrightarrow>
     set (sourceShapes qs) \<subseteq> {n} \<and> length (sourceShapes qs) = length (resultNodes qs)"


section \<open>Example data\<close>

text \<open>
  A shapes graph with the namespace \<^verbatim>\<open>ex:\<close>, shapes with one constraint whose validator
  reports a violation for every node, and two target nodes per shape.
\<close>

definition failingValidator :: validationFunction where
  "failingValidator focusNode valueNode param = Return (JBool False)"


definition nullValidator :: validationFunction where
  "nullValidator focusNode valueNode param =
     (if focusNode = NamedNode ''http://example.org/b'' then Return JNull
      else Return (JBool True))"


text \<open>A validator in the manner of \<^verbatim>\<open>sh:node\<close>: the focus node must conform to the shape
  that the parameter names.\<close>

definition conformsValidator :: validationFunction where
  "conformsValidator focusNode valueNode param =
     NodeConformsToShape focusNode param (\<lambda>conforms. Return (JBool conforms))"

definition exampleComponent :: "validationFunction \<Rightarrow> bool \<Rightarrow> ConstraintComponent" where
  "exampleComponent vf generic =
     \<lparr> node = T ''sh:ClassConstraintComponent'',
       propertyValidationFunction = Some vf,
       propertyValidationFunctionGeneric = generic,
       nodeValidationFunction = Some vf,
       nodeValidationFunctionGeneric = generic \<rparr>"

definition exampleHead :: "string \<Rightarrow> Shape_head" where
  "exampleHead iri =
     \<lparr> shapeNode = NamedNode iri, severity = T ''sh:Violation'', path = None,
       deactivated = False \<rparr>"

definition exampleConstraint :: "string \<Rightarrow> validationFunction \<Rightarrow> bool \<Rightarrow> Constraint" where
  "exampleConstraint iri vf generic =
     \<lparr> shape = exampleHead iri,
       component = exampleComponent vf generic,
       paramValue = NamedNode ''http://example.org/Foo'',
       parameterValues = [(''value'', Term (NamedNode ''http://example.org/Foo''))],
       componentMessages = [''Value {$value} is invalid''] \<rparr>"

definition exampleShape :: "string \<Rightarrow> Constraint list \<Rightarrow> Shape" where
  "exampleShape iri cs =
     \<lparr> shapeNode = NamedNode iri, severity = T ''sh:Violation'', path = None,
       deactivated = False,
       getConstraints = cs,
       getTargetNodes = (\<lambda>g. [NamedNode ''http://example.org/a'', NamedNode ''http://example.org/b'']),
       getValueNodes = (\<lambda>focusNode g. [focusNode]) \<rparr>"

text \<open>
  The nested shape of the example: two constraints of its own, both violated, the first
  with a generic validator.
\<close>

definition nestedShape :: Shape where
  "nestedShape =
     exampleShape ''http://example.org/Nested''
       [exampleConstraint ''http://example.org/Nested'' failingValidator True,
        exampleConstraint ''http://example.org/Nested'' failingValidator False]"

definition exampleContext :: "Shape list \<Rightarrow> Context" where
  "exampleContext shapes =
     \<lparr> shapeMessages = (\<lambda>n. []),
       namespaces = [(''ex'', ''http://example.org/'')],
       getShapesWithTarget = shapes,
       getShape = (\<lambda>n. nestedShape),
       numericToInt32 = (\<lambda>s. 0) \<rparr>"

definition exampleEngine :: "validationFunction \<Rightarrow> bool \<Rightarrow> bool \<Rightarrow> ValidationEngine" where
  "exampleEngine vf generic conformance =
     newValidationEngine
       (exampleContext
          [exampleShape ''http://example.org/S'' [exampleConstraint ''http://example.org/S'' vf generic]])
       conformance"

text \<open>An engine whose batch limit of one violation is reached.\<close>

definition reachedEngine :: ValidationEngine where
  "reachedEngine =
     (exampleEngine failingValidator True False)
       \<lparr> validationErrorBatch := 1, violationsCount := 1 \<rparr>"

text \<open>An engine inside a suppressed evaluation.\<close>

definition suppressedEngine :: ValidationEngine where
  "suppressedEngine =
     (exampleEngine failingValidator True False) \<lparr> recordErrorsLevel := 1 \<rparr>"


text \<open>A template in which the placeholder occurs twice, and a parameter bound to a literal.\<close>

definition twiceTemplate :: rdf_term where
  "twiceTemplate = literal ''{$v} and {$v}'' ArgAbsent"

definition twiceConstraint :: Constraint where
  "twiceConstraint =
     (exampleConstraint ''http://example.org/S'' failingValidator False)
       \<lparr> parameterValues := [(''v'', Term (literal ''X'' ArgAbsent))] \<rparr>"

section \<open>Labels\<close>

lemma termValue_literal [simp]: "termValue (literal v a) = v"
  by (simp add: literal_def split: literal_arg.splits)

lemma nodeLabel_literal [simp]: "nodeLabel (Term (literal v a)) nss = v"
  by (simp add: literal_def split: literal_arg.splits)

lemma indexOf_zero: "indexOf v ns = Some 0 \<longleftrightarrow> prefix ns v"
  by (cases v) auto

lemma namespaceLoop_first:
  "\<forall>(p', ns') \<in> set skipped. \<not> prefix ns' v \<Longrightarrow> prefix ns v \<Longrightarrow>
   namespaceLoop (skipped @ (p, ns) # rest) v = p @ '':'' @ drop (length ns) v"
  by (induction skipped) (auto simp add: indexOf_zero)

lemma namespaceLoop_none:
  "\<forall>(p', ns') \<in> set nss. \<not> prefix ns' v \<Longrightarrow> namespaceLoop nss v = ''<'' @ v @ ''>''"
  by (induction nss) (auto simp add: indexOf_zero)

text \<open>
  Claim C8. The label of a collection is the labels of its elements joined by a comma
  and a space. The label of a named node is prefix, colon and the rest of the IRI for the
  first namespace, in the order of declaration, whose IRI the node's IRI starts with
  (whatever the later namespaces are, longer or shorter), and the IRI in angle brackets
  when no declared namespace matches. The label of a blank node is \<^verbatim>\<open>Blank node\<close> and
  its identifier; the label of any other term is its value.
\<close>

theorem nodeLabel_cases:
  "nodeLabel (Collection els) nss = join '', '' (map (\<lambda>el. nodeLabel el nss) els) \<and>
   ((\<forall>(p', ns') \<in> set skipped. \<not> prefix ns' (ns @ rest_iri)) \<longrightarrow>
      nodeLabel (Term (NamedNode (ns @ rest_iri))) (skipped @ (p, ns) # rest) = p @ '':'' @ rest_iri) \<and>
   ((\<forall>(p', ns') \<in> set nss. \<not> prefix ns' v) \<longrightarrow>
      nodeLabel (Term (NamedNode v)) nss = ''<'' @ v @ ''>'') \<and>
   nodeLabel (Term (BlankNode b)) nss = ''Blank node '' @ b \<and>
   nodeLabel (Term (Literal lexical l d)) nss = lexical"
  by (simp add: namespaceLoop_first namespaceLoop_none)

theorem nodeLabel_cases_witness:
  "nodeLabel (Term (NamedNode ''http://example.org/Foo''))
     [(''e'', ''http://example''), (''ex'', ''http://example.org/'')] = ''e:.org/Foo'' \<and>
   nodeLabel (Term (NamedNode ''http://example.org/Foo''))
     [(''ex'', ''http://example.org/''), (''e'', ''http://example'')] = ''ex:Foo'' \<and>
   nodeLabel (Term (NamedNode ''urn:a'')) [(''ex'', ''http://example.org/'')] = ''<urn:a>'' \<and>
   nodeLabel (Collection [Term (BlankNode ''n1''), Term (literal ''5'' ArgAbsent)]) [] = ''Blank node n1, 5''"
  using nodeLabel_cases [where skipped = "[]" and ns = "''http://example''" and rest_iri = "''.org/Foo''"
      and p = "''e''" and rest = "[(''ex'', ''http://example.org/'')]"
      and nss = "[(''ex'', ''http://example.org/'')]" and v = "''urn:a''"]
    nodeLabel_cases [where skipped = "[]" and ns = "''http://example.org/''" and rest_iri = "''Foo''"
      and p = "''ex''" and rest = "[(''e'', ''http://example'')]"
      and els = "[Term (BlankNode ''n1''), Term (literal ''5'' ArgAbsent)]" and nss = "[]"]
  by simp

section \<open>Message substitution\<close>

lemma getSubstitution_plain:
  "CHR ''$'' \<notin> set repl \<Longrightarrow> getSubstitution m b a repl = repl"
  by (induction m b a repl rule: getSubstitution.induct) auto

lemma replace_replaceFirst:
  "CHR ''$'' \<notin> set repl \<Longrightarrow> replace s pat repl = replaceFirst s pat repl"
proof (induction s)
  case Nil
  then show ?case by (simp add: replace_def getSubstitution_plain)
next
  case (Cons c cs)
  then show ?case
    by (auto simp add: replace_def getSubstitution_plain Let_def split: option.splits)
qed

lemma replaceFirst_absent:
  "\<not> (\<exists>a b. s = a @ pat @ b) \<Longrightarrow> replaceFirst s pat lab = s"
proof (induction s)
  case Nil
  then show ?case by auto
next
  case (Cons c cs)
  have "\<not> prefix pat (c # cs)"
  proof
    assume "prefix pat (c # cs)"
    then obtain z where "c # cs = [] @ pat @ z" by (auto simp add: prefix_def)
    with Cons.prems show False by blast
  qed
  moreover have "\<not> (\<exists>a b. cs = a @ pat @ b)"
  proof
    assume "\<exists>a b. cs = a @ pat @ b"
    then obtain a b where "cs = a @ pat @ b" by blast
    then have "c # cs = (c # a) @ pat @ b" by simp
    with Cons.prems show False by blast
  qed
  ultimately show ?case using Cons.IH by simp
qed

lemma replaceFirst_prefix:
  "prefix pat s \<Longrightarrow> replaceFirst s pat lab = lab @ drop (length pat) s"
  by (cases s) auto

lemma replaceFirst_first:
  "\<forall>a' b'. a @ pat @ b = a' @ pat @ b' \<longrightarrow> length a \<le> length a' \<Longrightarrow>
   replaceFirst (a @ pat @ b) pat lab = a @ lab @ b"
proof (induction a)
  case Nil
  show ?case by (simp add: replaceFirst_prefix)
next
  case (Cons c a)
  have np: "\<not> prefix pat (c # a @ pat @ b)"
  proof
    assume "prefix pat (c # a @ pat @ b)"
    then obtain z where "c # a @ pat @ b = [] @ pat @ z" by (auto simp add: prefix_def)
    with Cons.prems have "length (c # a) \<le> length ([]::string)" by (metis append_Cons)
    then show False by simp
  qed
  have "\<forall>a' b'. a @ pat @ b = a' @ pat @ b' \<longrightarrow> length a \<le> length a'"
  proof (intro allI impI)
    fix a' b' assume "a @ pat @ b = a' @ pat @ b'"
    then have "(c # a) @ pat @ b = (c # a') @ pat @ b'" by simp
    with Cons.prems have "length (c # a) \<le> length (c # a')" by blast
    then show "length a \<le> length a'" by simp
  qed
  with Cons.IH np show ?case by simp
qed

lemma substitutionLoop_fold:
  "\<forall>(key, v) \<in> set ps. CHR ''$'' \<notin> set (nodeLabel v nss) \<Longrightarrow>
   substitutionLoop ps nss str =
     fold (\<lambda>(key, v) s. replaceFirst (replaceFirst s (''{$'' @ key @ ''}'') (nodeLabel v nss))
                            (''{?'' @ key @ ''}'') (nodeLabel v nss)) ps str"
  by (induction ps arbitrary: str) (auto simp add: replace_replaceFirst Let_def)

text \<open>
  Claim C7, as amended. For every template and every named parameter, taken in order,
  \<^verbatim>\<open>withSubstitutions\<close> replaces the first occurrence of \<^verbatim>\<open>{$name}\<close> and then the first
  occurrence of \<^verbatim>\<open>{?name}\<close> by the label of the parameter's value, for labels without a
  dollar sign; later occurrences stay.
\<close>

theorem withSubstitutions_first_occurrence:
  assumes "\<forall>(key, v) \<in> set (parameterValues c). CHR ''$'' \<notin> set (nodeLabel v (namespaces context))"
  shows "termValue (withSubstitutions context msg c) =
     fold (\<lambda>(key, v) s.
             replaceFirst (replaceFirst s (''{$'' @ key @ ''}'') (nodeLabel v (namespaces context)))
               (''{?'' @ key @ ''}'') (nodeLabel v (namespaces context)))
       (parameterValues c) (termValue msg)"
  using substitutionLoop_fold [OF assms] by (simp add: withSubstitutions_def)

text \<open>
  The example of the specification: under \<^verbatim>\<open>ex: = http://example.org/\<close>, the template
  \<^verbatim>\<open>Value {$value} is invalid\<close> with \<^verbatim>\<open>value\<close> bound to \<^verbatim>\<open>http://example.org/Foo\<close>.
\<close>

theorem withSubstitutions_first_occurrence_witness:
  "termValue (withSubstitutions (exampleContext [])
       (literal ''Value {$value} is invalid'' ArgAbsent)
       (exampleConstraint ''http://example.org/S'' failingValidator False)) =
     ''Value ex:Foo is invalid''"
  using withSubstitutions_first_occurrence
    [of "exampleConstraint ''http://example.org/S'' failingValidator False" "exampleContext []"
        "literal ''Value {$value} is invalid'' ArgAbsent"]
  by (simp add: exampleContext_def exampleConstraint_def)

text \<open>
  Claim C7 as stated fails: of two occurrences of \<^verbatim>\<open>{$v}\<close> only the first is replaced.
\<close>

theorem withSubstitutions_every_occurrence_counterexample:
  "termValue (withSubstitutions (exampleContext []) twiceTemplate twiceConstraint) =
     ''X and {$v}''"
  by (simp add: withSubstitutions_def twiceTemplate_def twiceConstraint_def exampleConstraint_def
      exampleContext_def replace_def)

section \<open>Numeric strings\<close>

lemma numeric_examples:
  "isStringNumericLiteral '' 12 ''" "isStringNumericLiteral ''-1.5e3''"
  "isStringNumericLiteral ''0x1F''" "isStringNumericLiteral ''Infinity''"
  "isStringNumericLiteral ''.5''" "isStringNumericLiteral ''5.''"
  "\<not> isStringNumericLiteral ''en''" "\<not> isStringNumericLiteral ''1e''"
  "\<not> isStringNumericLiteral ''.''" "\<not> isStringNumericLiteral ''+0x10''"
  "\<not> isStringNumericLiteral ''1 2''" "isStringNumericLiteral []"
  "\<not> isStringNumericLiteral ''e5''" "\<not> isStringNumericLiteral ''0x''"
  "\<not> isStringNumericLiteral ''+''" "isStringNumericLiteral ''-Infinity''"
  by code_simp+

lemma strTrim_Cons:
  "\<not> isStrWhiteSpaceChar a \<Longrightarrow>
   strTrim (a # r) = a # rev (dropWhile isStrWhiteSpaceChar (rev r))"
  by (simp add: strTrim_def dropWhile_append3)

lemma letter_first_not_numeric:
  assumes "isAsciiLetter a" and "dropSign (strTrim (a # r)) \<noteq> ''Infinity''"
  shows "\<not> isStringNumericLiteral (a # r)"
proof -
  have ws: "\<not> isStrWhiteSpaceChar a"
    using assms(1) by (auto simp add: isAsciiLetter_def isStrWhiteSpaceChar_def)
  have digit: "\<not> isDecimalDigit a"
    using assms(1) by (auto simp add: isAsciiLetter_def isDecimalDigit_def)
  have chars: "a \<noteq> CHR ''+''" "a \<noteq> CHR ''-''" "a \<noteq> CHR ''.''" "a \<noteq> CHR ''0''"
    using assms(1) by (auto simp add: isAsciiLetter_def)
  obtain t where t: "strTrim (a # r) = a # t" using strTrim_Cons [OF ws] by blast
  have sign: "dropSign (a # t) = a # t" using chars by (simp add: dropSign_def)
  have "\<not> isStrUnsignedDecimalLiteral (a # t)"
    using assms(2) t sign digit chars by (simp add: isStrUnsignedDecimalLiteral_def)
  moreover have "\<not> isNonDecimalIntegerLiteral (a # t)"
    using chars by (simp add: isNonDecimalIntegerLiteral_def split: list.splits)
  ultimately show ?thesis
    by (simp add: isStringNumericLiteral_def t sign)
qed

lemma letter_first_zero:
  "isAsciiLetter a \<Longrightarrow> stringToInt32 numeric (a # r) = 0"
  using letter_first_not_numeric [of a r] by (auto simp add: stringToInt32_def)

lemma withSubstitutions_number:
  "withSubstitutions cx msg c =
     literal (substitutionLoop (parameterValues c) (namespaces cx) (termValue msg))
       (ArgNumber (languageToInt32 (numericToInt32 cx) msg OR datatypeToInt32 msg))"
  by (simp add: withSubstitutions_def)

lemma withSubstitutions_plain:
  assumes "stringToInt32 (numericToInt32 cx) l = 0"
  shows "withSubstitutions cx (Literal v l (Datatype d)) c =
     Literal (substitutionLoop (parameterValues c) (namespaces cx) v) []
       (Datatype (T ''xsd:string''))"
  using assms by (simp add: withSubstitutions_def literal_def)

text \<open>
  Claim C10, as amended. The literal that \<^verbatim>\<open>withSubstitutions\<close> returns is built from the
  substituted string and a number, \<^verbatim>\<open>msg.language | msg.datatype\<close>, never from the
  template's language tag or datatype. For a template whose language string denotes no
  number, is white space or denotes an infinity, and so for every language tag that
  begins with a letter, that number is 0 and the result is a plain literal: it has no
  language tag and its datatype is \<^verbatim>\<open>xsd:string\<close>, whatever the datatype of the template.
  So a language tag is always dropped and a datatype other than \<^verbatim>\<open>xsd:string\<close> is replaced
  by \<^verbatim>\<open>xsd:string\<close>.
\<close>

theorem withSubstitutions_drops_language_and_datatype:
  "(\<exists>n. withSubstitutions cx msg c =
          literal (substitutionLoop (parameterValues c) (namespaces cx) (termValue msg))
            (ArgNumber n)) \<and>
   (\<not> isStringNumericLiteral l \<or> strTrim l = [] \<or> dropSign (strTrim l) = ''Infinity'' \<longrightarrow>
      withSubstitutions cx (Literal v l (Datatype d)) c =
        Literal (substitutionLoop (parameterValues c) (namespaces cx) v) []
          (Datatype (T ''xsd:string''))) \<and>
   (isAsciiLetter a \<longrightarrow>
      withSubstitutions cx (Literal v (a # r) (Datatype d)) c =
        Literal (substitutionLoop (parameterValues c) (namespaces cx) v) []
          (Datatype (T ''xsd:string'')))"
proof (intro conjI impI)
  show "\<exists>n. withSubstitutions cx msg c =
          literal (substitutionLoop (parameterValues c) (namespaces cx) (termValue msg))
            (ArgNumber n)"
    using withSubstitutions_number by blast
next
  assume "\<not> isStringNumericLiteral l \<or> strTrim l = [] \<or> dropSign (strTrim l) = ''Infinity''"
  then have "stringToInt32 (numericToInt32 cx) l = 0"
    by (auto simp add: stringToInt32_def)
  then show "withSubstitutions cx (Literal v l (Datatype d)) c =
        Literal (substitutionLoop (parameterValues c) (namespaces cx) v) []
          (Datatype (T ''xsd:string''))"
    by (rule withSubstitutions_plain)
next
  assume "isAsciiLetter a"
  then have "stringToInt32 (numericToInt32 cx) (a # r) = 0" by (rule letter_first_zero)
  then show "withSubstitutions cx (Literal v (a # r) (Datatype d)) c =
        Literal (substitutionLoop (parameterValues c) (namespaces cx) v) []
          (Datatype (T ''xsd:string''))"
    by (rule withSubstitutions_plain)
qed

theorem withSubstitutions_drops_language_and_datatype_witness:
  "\<not> isStringNumericLiteral ''en'' \<and> isAsciiLetter CHR ''e'' \<and>
   withSubstitutions (exampleContext [])
       (Literal ''Value {$value} is invalid'' ''en'' (Datatype (T ''rdf:langString'')))
       (exampleConstraint ''http://example.org/S'' failingValidator False) =
     Literal ''Value ex:Foo is invalid'' [] (Datatype (T ''xsd:string''))"
proof -
  have notnum: "\<not> isStringNumericLiteral ''en''" by code_simp
  have letter: "isAsciiLetter CHR ''e''" by code_simp
  have subst: "substitutionLoop
      (parameterValues (exampleConstraint ''http://example.org/S'' failingValidator False))
      (namespaces (exampleContext [])) ''Value {$value} is invalid'' = ''Value ex:Foo is invalid''"
    by (simp add: exampleContext_def exampleConstraint_def replace_def)
  from withSubstitutions_drops_language_and_datatype
    [where cx = "exampleContext []" and l = "''en''" and a = "CHR ''e''" and r = "''n''"
       and c = "exampleConstraint ''http://example.org/S'' failingValidator False"
       and v = "''Value {$value} is invalid''" and d = "T ''rdf:langString''"]
    notnum letter subst
  show ?thesis by simp
qed

text \<open>
  Claim C10 as stated fails: a template without a language tag carries the datatype
  \<^verbatim>\<open>xsd:string\<close>, and the result carries that same datatype.
\<close>

theorem withSubstitutions_keeps_string_datatype_counterexample:
  "withSubstitutions (exampleContext [])
       (Literal ''Value {$value} is invalid'' [] (Datatype (T ''xsd:string'')))
       (exampleConstraint ''http://example.org/S'' failingValidator False) =
     Literal ''Value ex:Foo is invalid'' [] (Datatype (T ''xsd:string''))"
  by code_simp

section \<open>The frame of the dispatch functions\<close>

lemma frame_refl: "frame e r e"
  by (simp add: frame_def)

lemma frame_trans: "frame e (Normal a) e1 \<Longrightarrow> frame e1 r e2 \<Longrightarrow> frame e r e2"
  by (auto simp add: frame_def)

lemma frame_result: "frame e (r :: 'a completion) e' \<Longrightarrow> frame e (Normal b) e' \<or> (\<exists>x. r = Throw x)"
  by (cases r) (auto simp add: frame_def)

lemma frame_Throw: "frame e (r :: 'a completion) e' \<Longrightarrow> frame e (Throw x :: 'b completion) e'"
  by (auto simp add: frame_def)

lemma frame_Normal: "frame e (Normal a) e' \<Longrightarrow> frame e (Normal b) e'"
  by (auto simp add: frame_def)

lemma frame_bracket_Normal:
  "frame (e\<lparr>recordErrorsLevel := recordErrorsLevel e + 1\<rparr>) (Normal a) e2 \<Longrightarrow>
   frame e (Normal b) (e2\<lparr>recordErrorsLevel := recordErrorsLevel e2 - 1\<rparr>)"
  by (auto simp add: frame_def)

lemma frame_bracket_Throw:
  "frame (e\<lparr>recordErrorsLevel := recordErrorsLevel e + 1\<rparr>) (Throw x) e2 \<Longrightarrow> frame e (Throw x) e2"
  by (auto simp add: frame_def)

lemma frame_count: "frame e (Normal a) (e\<lparr>violationsCount := violationsCount e + 1\<rparr>)"
  by (simp add: frame_def)

lemma results_addResultProperty: "results (addResultProperty s p ob e) = results e @ [(s, p, ob)]"
  by (simp add: addResultProperty_def)

lemma addResultProperty_other [simp]:
  "ctx (addResultProperty s p ob e) = ctx e"
  "conformanceOnly (addResultProperty s p ob e) = conformanceOnly e"
  "validationErrorBatch (addResultProperty s p ob e) = validationErrorBatch e"
  "validationError (addResultProperty s p ob e) = validationError e"
  "violationsCount (addResultProperty s p ob e) = violationsCount e"
  "recordErrorsLevel (addResultProperty s p ob e) = recordErrorsLevel e"
  "blankNodes (addResultProperty s p ob e) = blankNodes e"
  by (simp_all add: addResultProperty_def)

lemma grows_refl: "grows e e"
  by (simp add: grows_def)

lemma grows_trans: "grows e e1 \<Longrightarrow> grows e1 e2 \<Longrightarrow> grows e e2"
  by (auto simp add: grows_def)

lemma grows_add: "grows e (addResultProperty s p ob e)"
  by (simp add: grows_def results_addResultProperty)

lemma grows_add': "grows e e1 \<Longrightarrow> grows e (addResultProperty s p ob e1)"
  using grows_add grows_trans by blast


lemma grows_createResult: "grows e (snd (createResult c f v e))"
  by (auto simp add: createResult_def blankNode_def Let_def grows_def results_addResultProperty split: option.splits)

lemma grows_addShapePath: "grows e (addShapePath r c e)"
  by (auto simp add: addShapePath_def grows_refl grows_add split: option.splits)

lemma grows_fold_add: "grows e (fold (\<lambda>m. addResultProperty s p (h m)) ms e)"
proof (induction ms arbitrary: e)
  case Nil show ?case by (simp add: grows_refl)
next
  case (Cons m ms)
  show ?case using grows_trans [OF grows_add Cons.IH] by simp
qed

lemma grows_createResultMessages: "grows e (createResultMessages r c e)"
proof -
  have "\<And>k ms. grows e (fold (\<lambda>m. addResultProperty r (T ''sh:resultMessage'') (withSubstitutions k m c)) ms e)"
    by (rule grows_fold_add)
  then show ?thesis by (simp add: createResultMessages_def Let_def)
qed

lemma createResultFromObject_suppressed:
  "suppressed e = Some b \<Longrightarrow> \<exists>b'. createResultFromObject obj c f v e = (Normal b', e)"
  by (cases "(obj, c, f, v, e)" rule: createResultFromObject.cases) auto


lemma grows_createResultMessages': "grows e e1 \<Longrightarrow> grows e (createResultMessages r c e1)"
  using grows_createResultMessages grows_trans by blast

lemma grows_addShapePath': "grows e e1 \<Longrightarrow> grows e (addShapePath r c e1)"
  using grows_addShapePath grows_trans by blast

lemma grows_createResult': "createResult c f v e = (res, e1) \<Longrightarrow> grows e e1"
  using grows_createResult [of e c f v] by simp

lemmas grows_intros = grows_refl grows_add' grows_createResultMessages' grows_addShapePath'

lemma createResultFromObject_grows:
  "createResultFromObject obj c f v e = (r, e') \<Longrightarrow> grows e e'"
  by (cases "(obj, c, f, v, e)" rule: createResultFromObject.cases)
     (auto simp add: Let_def split: option.splits prod.splits
           dest!: grows_createResult' intro!: grows_intros)

lemma suppressed_level: "0 < recordErrorsLevel e \<Longrightarrow> suppressed e = Some (\<not> conformanceOnly e)"
  by (simp add: suppressed_def)

lemma createResultFromObject_frame:
  assumes "createResultFromObject obj c f v e = (r, e')"
  shows "frame e r e'"
proof (cases "0 < recordErrorsLevel e")
  case True
  then obtain b where "suppressed e = Some b" by (simp add: suppressed_level)
  then obtain b' where "createResultFromObject obj c f v e = (Normal b', e)"
    using createResultFromObject_suppressed by blast
  with assms show ?thesis by (simp add: frame_refl)
next
  case False
  with createResultFromObject_grows [OF assms] show ?thesis
    by (auto simp add: frame_def grows_def)
qed

lemma arrayLoop_frame:
  "arrayLoop objs c f v acc e = (r, e') \<Longrightarrow> frame e r e'"
proof (induction objs arbitrary: acc e)
  case Nil
  then show ?case by (auto simp add: frame_refl)
next
  case (Cons obj objs)
  obtain r1 e1 where step: "createResultFromObject obj c f v e = (r1, e1)" by (cases "createResultFromObject obj c f v e")
  note f1 = createResultFromObject_frame [OF step]
  show ?case
  proof (cases r1)
    case (Normal b)
    with Cons.prems step have "arrayLoop objs c f v (acc \<or> b) e1 = (r, e')" by simp
    then have "frame e1 r e'" by (rule Cons.IH)
    with f1 Normal show ?thesis by (auto intro: frame_trans)
  next
    case (Throw x)
    with Cons.prems step f1 show ?thesis by auto
  qed
qed

lemma normalise_frame: "normalise obj c f v e = (r, e') \<Longrightarrow> frame e r e'"
  unfolding normalise_def
  by (auto split: js_value.splits simp del: createResultFromObject.simps
           dest: createResultFromObject_frame arrayLoop_frame)

lemma execute_frame:
  assumes "framed reenter"
  shows "execute reenter g prog e = (r, e') \<Longrightarrow> frame e r e'"
proof (induction prog arbitrary: e)
  case (Return v)
  then show ?case by (auto simp add: frame_refl)
next
  case (Raise x)
  then show ?case by (auto simp add: frame_refl)
next
  case (NodeConformsToShape n s k)
  obtain r1 e1 where step: "reenter n (getShape (ctx e) s) g e = (r1, e1)"
    by (cases "reenter n (getShape (ctx e) s) g e")
  with assms have f1: "frame e r1 e1" by (auto simp add: framed_def)
  show ?case
  proof (cases r1)
    case (Normal b)
    with NodeConformsToShape.prems step have "execute reenter g (k (\<not> b)) e1 = (r, e')" by simp
    then have "frame e1 r e'" by (rule NodeConformsToShape.IH [OF rangeI])
    with f1 Normal show ?thesis by (auto intro: frame_trans)
  next
    case (Throw x)
    with NodeConformsToShape.prems step f1 show ?thesis by (auto dest: frame_Throw)
  qed
qed


lemma genericLoop_frame:
  assumes "framed reenter"
  shows "genericLoop reenter vf f vs c g acc e = (r, e') \<Longrightarrow> frame e r e'"
proof (induction vs arbitrary: acc e)
  case Nil
  then show ?case by (auto simp add: frame_refl)
next
  case (Cons v vs)
  show ?case
  proof (cases "maxErrorsReached e")
    case True
    with Cons.prems show ?thesis by (auto simp add: frame_refl)
  next
    case False
    let ?e1 = "e\<lparr>recordErrorsLevel := recordErrorsLevel e + 1\<rparr>"
    obtain r2 e2 where ex: "execute reenter g (vf f (Some v) (paramValue c)) ?e1 = (r2, e2)"
      by (cases "execute reenter g (vf f (Some v) (paramValue c)) ?e1")
    note f2 = execute_frame [OF assms ex]
    show ?thesis
    proof (cases r2)
      case (Throw x)
      with Cons.prems False ex have "r = Throw x" "e' = e2" by (simp_all add: Let_def)
      with f2 Throw show ?thesis by (auto intro: frame_bracket_Throw)
    next
      case (Normal obj)
      let ?e3 = "e2\<lparr>recordErrorsLevel := recordErrorsLevel e2 - 1\<rparr>"
      from f2 Normal have f3: "frame e (Normal True) ?e3" by (auto intro: frame_bracket_Normal)
      obtain r4 e4 where no: "normalise obj c f (Some v) ?e3 = (r4, e4)"
        by (cases "normalise obj c f (Some v) ?e3")
      note f4 = normalise_frame [OF no]
      show ?thesis
      proof (cases r4)
        case (Throw x)
        with Cons.prems False ex Normal no have "r = Throw x" "e' = e4" by (simp_all add: Let_def)
        with f3 f4 Throw show ?thesis by (auto intro: frame_trans)
      next
        case inner: (Normal it)
        let ?e5 = "if it then e4\<lparr>violationsCount := violationsCount e4 + 1\<rparr> else e4"
        have f5: "frame e4 (Normal True) ?e5" by (simp add: frame_count frame_refl)
        from Cons.prems False ex Normal no inner
        have "genericLoop reenter vf f vs c g (acc \<or> it) ?e5 = (r, e')" by (simp add: Let_def)
        then have f6: "frame ?e5 r e'" by (rule Cons.IH)
        from f4 inner have "frame ?e3 (Normal True) e4" by (auto intro: frame_Normal)
        with f3 have "frame e (Normal True) e4" by (rule frame_trans)
        then have "frame e (Normal True) ?e5" using f5 by (rule frame_trans)
        then show ?thesis using f6 by (rule frame_trans)
      qed
    qed
  qed
qed

lemma propertyLoop_frame:
  assumes "framed reenter"
  shows "propertyLoop reenter vs c g acc e = (r, e') \<Longrightarrow> frame e r e'"
proof (induction vs arbitrary: acc e)
  case Nil
  then show ?case by (auto simp add: frame_refl)
next
  case (Cons v vs)
  obtain r1 e1 where step: "reenter v (getShape (ctx e) (paramValue c)) g e = (r1, e1)"
    by (cases "reenter v (getShape (ctx e) (paramValue c)) g e")
  with assms have f1: "frame e r1 e1" by (auto simp add: framed_def)
  show ?case
  proof (cases r1)
    case (Normal b)
    with Cons.prems step have "propertyLoop reenter vs c g (acc \<or> b) e1 = (r, e')" by simp
    then have "frame e1 r e'" by (rule Cons.IH)
    with f1 Normal show ?thesis by (auto intro: frame_trans)
  next
    case (Throw x)
    with Cons.prems step f1 show ?thesis by auto
  qed
qed

lemma validateNodeAgainstConstraint_body_frame:
  assumes "framed reenter"
    and run: "validateNodeAgainstConstraint_body reenter f vs c g e = (r, e')"
  shows "frame e r e'"
proof (cases "maxErrorsReached e")
  case True
  with run show ?thesis by (auto simp add: validateNodeAgainstConstraint_body_def frame_refl)
next
  case notmax: False
  show ?thesis
  proof (cases "T ''sh:PropertyConstraintComponent'' = node (component c)")
    case True
    with run notmax have "propertyLoop reenter vs c g False e = (r, e')"
      by (simp add: validateNodeAgainstConstraint_body_def)
    then show ?thesis by (rule propertyLoop_frame [OF assms(1)])
  next
    case notprop: False
    let ?vfo = "if isPropertyShape (shape c) then propertyValidationFunction (component c)
                else nodeValidationFunction (component c)"
    let ?generic = "if isPropertyShape (shape c) then propertyValidationFunctionGeneric (component c)
                else nodeValidationFunctionGeneric (component c)"
    show ?thesis
    proof (cases ?vfo)
      case None
      with run notmax notprop show ?thesis
        by (auto simp add: validateNodeAgainstConstraint_body_def Let_def frame_refl)
    next
      case (Some vf)
      show ?thesis
      proof (cases ?generic)
        case True
        with run notmax notprop Some have "genericLoop reenter vf f vs c g False e = (r, e')"
          by (auto simp add: validateNodeAgainstConstraint_body_def Let_def split: if_splits)
        then show ?thesis by (rule genericLoop_frame [OF assms(1)])
      next
        case False
        let ?e1 = "e\<lparr>recordErrorsLevel := recordErrorsLevel e + 1\<rparr>"
        obtain r2 e2 where ex: "execute reenter g (vf f None (paramValue c)) ?e1 = (r2, e2)"
          by (cases "execute reenter g (vf f None (paramValue c)) ?e1")
        note f2 = execute_frame [OF assms(1) ex]
        show ?thesis
        proof (cases r2)
          case (Throw x)
          with run notmax notprop Some False ex have "r = Throw x" "e' = e2"
            by (auto simp add: validateNodeAgainstConstraint_body_def Let_def split: if_splits)
          with f2 Throw show ?thesis by (auto intro: frame_bracket_Throw)
        next
          case (Normal obj)
          let ?e3 = "e2\<lparr>recordErrorsLevel := recordErrorsLevel e2 - 1\<rparr>"
          from f2 Normal have f3: "frame e (Normal True) ?e3" by (auto intro: frame_bracket_Normal)
          from run notmax notprop Some False ex Normal
          have "normalise obj c f None ?e3 = (r, e')"
            by (auto simp add: validateNodeAgainstConstraint_body_def Let_def split: if_splits)
          then have "frame ?e3 r e'" by (rule normalise_frame)
          with f3 show ?thesis by (rule frame_trans)
        qed
      qed
    qed
  qed
qed

lemma constraintsLoop_frame:
  assumes "framed reenter"
  shows "constraintsLoop reenter f vs cs g acc e = (r, e') \<Longrightarrow> frame e r e'"
proof (induction cs arbitrary: acc e)
  case Nil
  then show ?case by (auto simp add: frame_refl)
next
  case (Cons c cs)
  obtain r1 e1 where step: "validateNodeAgainstConstraint_body reenter f vs c g e = (r1, e1)"
    by (cases "validateNodeAgainstConstraint_body reenter f vs c g e")
  note f1 = validateNodeAgainstConstraint_body_frame [OF assms step]
  show ?case
  proof (cases r1)
    case (Normal b)
    with Cons.prems step have "constraintsLoop reenter f vs cs g (acc \<or> b) e1 = (r, e')" by simp
    then have "frame e1 r e'" by (rule Cons.IH)
    with f1 Normal show ?thesis by (auto intro: frame_trans)
  next
    case (Throw x)
    with Cons.prems step f1 show ?thesis by auto
  qed
qed

lemma validateNodeAgainstShape_body_framed:
  assumes "framed reenter"
  shows "framed (validateNodeAgainstShape_body reenter)"
  unfolding framed_def validateNodeAgainstShape_body_def
  by (auto simp add: Let_def frame_refl split: if_splits dest: constraintsLoop_frame [OF assms])

lemma reentry_framed: "framed (reentry depth)"
proof (induction depth)
  case 0
  show ?case by (auto simp add: framed_def stackOverflow_def frame_refl)
next
  case (Suc depth)
  then show ?case by (simp add: validateNodeAgainstShape_body_framed)
qed

lemma validateNodeAgainstShape_frame:
  "validateNodeAgainstShape depth f s g e = (r, e') \<Longrightarrow> frame e r e'"
  using validateNodeAgainstShape_body_framed [OF reentry_framed, of depth]
  by (simp add: validateNodeAgainstShape_def framed_def)

lemma validateNodeAgainstConstraint_frame:
  "validateNodeAgainstConstraint depth f vs c g e = (r, e') \<Longrightarrow> frame e r e'"
  unfolding validateNodeAgainstConstraint_def
  by (rule validateNodeAgainstConstraint_body_frame [OF reentry_framed])

section \<open>Traversal\<close>

lemma focusNodesLoop_frame:
  "focusNodesLoop depth fs s g acc e = (r, e') \<Longrightarrow> frame e r e'"
proof (induction fs arbitrary: acc e)
  case Nil
  then show ?case by (auto simp add: frame_refl)
next
  case (Cons f fs)
  obtain r1 e1 where step: "validateNodeAgainstShape depth f s g e = (r1, e1)"
    by (cases "validateNodeAgainstShape depth f s g e")
  note f1 = validateNodeAgainstShape_frame [OF step]
  show ?case
  proof (cases r1)
    case (Normal b)
    with Cons.prems step have "focusNodesLoop depth fs s g (acc \<or> b) e1 = (r, e')" by simp
    then have "frame e1 r e'" by (rule Cons.IH)
    with f1 Normal show ?thesis by (auto intro: frame_trans)
  next
    case (Throw x)
    with Cons.prems step f1 show ?thesis by auto
  qed
qed

lemma shapesLoop_frame:
  "shapesLoop depth ss g acc e = (r, e') \<Longrightarrow> frame e r e'"
proof (induction ss arbitrary: acc e)
  case Nil
  then show ?case by (auto simp add: frame_refl)
next
  case (Cons s ss)
  obtain r1 e1 where step: "focusNodesLoop depth (getTargetNodes s g) s g acc e = (r1, e1)"
    by (cases "focusNodesLoop depth (getTargetNodes s g) s g acc e")
  note f1 = focusNodesLoop_frame [OF step]
  show ?case
  proof (cases r1)
    case (Normal b)
    with Cons.prems step have "shapesLoop depth ss g b e1 = (r, e')" by simp
    then have "frame e1 r e'" by (rule Cons.IH)
    with f1 Normal show ?thesis by (auto intro: frame_trans)
  next
    case (Throw x)
    with Cons.prems step f1 show ?thesis by auto
  qed
qed

lemma maxErrorsReached_update:
  "maxErrorsReached (e\<lparr>results := qs\<rparr>) = maxErrorsReached e"
  "maxErrorsReached (e\<lparr>validationError := err\<rparr>) = maxErrorsReached e"
  "maxErrorsReached (e\<lparr>recordErrorsLevel := l\<rparr>) = maxErrorsReached e"
  "maxErrorsReached (e\<lparr>blankNodes := k\<rparr>) = maxErrorsReached e"
  by (simp_all add: maxErrorsReached_def)

lemma recordErrorsLevel_same: "recordErrorsLevel x = l \<Longrightarrow> x\<lparr>recordErrorsLevel := l\<rparr> = x"
  by simp

section \<open>Loops over a list that is split\<close>

lemma shapesLoop_append:
  "shapesLoop depth (ss1 @ ss2) g acc e =
     (case shapesLoop depth ss1 g acc e of
        (Normal b, e1) \<Rightarrow> shapesLoop depth ss2 g b e1
      | (Throw x, e1) \<Rightarrow> (Throw x, e1))"
  by (induction ss1 arbitrary: acc e) (auto split: prod.splits completion.splits)

lemma focusNodesLoop_append:
  "focusNodesLoop depth (fs1 @ fs2) s g acc e =
     (case focusNodesLoop depth fs1 s g acc e of
        (Normal b, e1) \<Rightarrow> focusNodesLoop depth fs2 s g b e1
      | (Throw x, e1) \<Rightarrow> (Throw x, e1))"
  by (induction fs1 arbitrary: acc e) (auto split: prod.splits completion.splits)

lemma constraintsLoop_append:
  "constraintsLoop reenter f vs (cs1 @ cs2) g acc e =
     (case constraintsLoop reenter f vs cs1 g acc e of
        (Normal b, e1) \<Rightarrow> constraintsLoop reenter f vs cs2 g b e1
      | (Throw x, e1) \<Rightarrow> (Throw x, e1))"
  by (induction cs1 arbitrary: acc e) (auto split: prod.splits completion.splits)


lemma genericLoop_reached:
  "maxErrorsReached e \<Longrightarrow> genericLoop reenter vf f vs c g acc e = (Normal acc, e)"
  by (cases vs) simp_all

lemma genericLoop_append:
  "genericLoop reenter vf f (vs1 @ vs2) c g acc e =
     (case genericLoop reenter vf f vs1 c g acc e of
        (Normal b, e1) \<Rightarrow> genericLoop reenter vf f vs2 c g b e1
      | (Throw x, e1) \<Rightarrow> (Throw x, e1))"
proof (induction vs1 arbitrary: acc e)
  case Nil
  show ?case by simp
next
  case (Cons v vs1)
  show ?case
  proof (cases "maxErrorsReached e")
    case True
    then show ?thesis by (simp add: genericLoop_reached)
  next
    case False
    then show ?thesis
      by (simp add: Cons.IH Let_def split: prod.splits completion.splits)
  qed
qed


section \<open>Where a throw comes from and where it goes\<close>

lemma body_unfold:
  assumes "\<not> maxErrorsReached e"
    and "T ''sh:PropertyConstraintComponent'' \<noteq> node (component c)"
  shows "validateNodeAgainstConstraint_body reenter f vs c g e =
      (case validationFunctionOf c of
         None \<Rightarrow> (Throw (Error (''Cannot find validator for constraint component '' @
                               termValue (node (component c)))), e)
       | Some vf \<Rightarrow>
           if genericOf c then genericLoop reenter vf f vs c g False e
           else (case execute reenter g (vf f None (paramValue c)) (enter e) of
                   (Throw x, e2) \<Rightarrow> (Throw x, e2)
                 | (Normal obj, e2) \<Rightarrow> normalise obj c f None (leave e2)))"
  unfolding validateNodeAgainstConstraint_body_def Let_def
  using assms by (auto split: option.splits)






lemma conformance_call_throws:
  assumes "reenter n (getShape (ctx e) sn) g e = (Throw x, e1)"
  shows "execute reenter g (NodeConformsToShape n sn k) e = (Throw x, e1)"
  using assms by simp

lemma shape_body_throws:
  assumes "\<not> maxErrorsReached e" and "\<not> deactivated s"
    and "getConstraints s = cs1 @ c # cs2"
    and "constraintsLoop reenter f (getValueNodes s f g) cs1 g False e = (Normal b, e1)"
    and "validateNodeAgainstConstraint_body reenter f (getValueNodes s f g) c g e1 = (Throw x, e2)"
  shows "validateNodeAgainstShape_body reenter f s g e = (Throw x, e2)"
  using assms by (simp add: validateNodeAgainstShape_body_def constraintsLoop_append)

lemma maxErrorsReached_frame:
  "frame e r e' \<Longrightarrow> violationsCount e' = violationsCount e \<Longrightarrow>
   maxErrorsReached e' = maxErrorsReached e"
  by (simp add: frame_def maxErrorsReached_def)

lemma traversal_throws:
  assumes "shapesLoop depth ss1 g acc e = (Normal b1, e1)"
    and "getTargetNodes s g = fs1 @ f # fs2"
    and "focusNodesLoop depth fs1 s g b1 e1 = (Normal b2, e2)"
    and "validateNodeAgainstShape depth f s g e2 = (Throw x, e3)"
  shows "shapesLoop depth (ss1 @ s # ss2) g acc e = (Throw x, e3)"
  using assms by (simp add: shapesLoop_append focusNodesLoop_append)

lemma validateAll_throws:
  assumes "\<not> maxErrorsReached e"
    and "getShapesWithTarget (ctx e) = ss1 @ s # ss2"
    and "shapesLoop depth ss1 g False (e\<lparr>validationError := OtherValue JNull, results := []\<rparr>) =
           (Normal b1, e1)"
    and "getTargetNodes s g = fs1 @ f # fs2"
    and "focusNodesLoop depth fs1 s g b1 e1 = (Normal b2, e2)"
    and "validateNodeAgainstShape depth f s g e2 = (Throw x, e3)"
  shows "validateAll depth g e = (True, e3\<lparr>validationError := x\<rparr>)"
  using assms(1,2) traversal_throws [OF assms(3,4,5,6), of ss2]
  by (simp add: validateAll_def)

lemma getReportAgain_stored:
  "truthyThrown (validationError e) \<Longrightarrow> getReportAgain n e = (Throw (validationError e), e)"
  by (induction n) (simp_all add: getReport_def)

section \<open>Fatal errors\<close>




section \<open>A validator that returns null\<close>

lemma normalise_null:
  assumes "recordErrorsLevel e = 0" and "\<not> conformanceOnly e"
  shows "normalise JNull c f v e = (Throw readPathOfNull, snd (createResult c f None e))"
  using assms by (simp add: normalise_def suppressed_def split_beta)

lemma leave_after_execute:
  assumes "framed reenter"
    and "execute reenter g prog (enter e) = (Normal obj, e2)"
  shows "recordErrorsLevel (leave e2) = recordErrorsLevel e"
    and "conformanceOnly (leave e2) = conformanceOnly e"
  using execute_frame [OF assms] by (simp_all add: frame_def)

lemma nongeneric_null_throws:
  assumes "framed reenter"
    and "recordErrorsLevel e = 0" and "\<not> conformanceOnly e" and "\<not> maxErrorsReached e"
    and "T ''sh:PropertyConstraintComponent'' \<noteq> node (component c)"
    and "validationFunctionOf c = Some vf" and "\<not> genericOf c"
    and "execute reenter g (vf f None (paramValue c)) (enter e) = (Normal JNull, e2)"
  shows "validateNodeAgainstConstraint_body reenter f vs c g e =
      (Throw readPathOfNull, snd (createResult c f None (leave e2)))"
proof -
  from leave_after_execute [OF assms(1,8)] assms(2,3)
  have "recordErrorsLevel (leave e2) = 0" "\<not> conformanceOnly (leave e2)" by simp_all
  from normalise_null [OF this] assms(6,7,8) show ?thesis
    by (simp add: body_unfold [OF assms(4,5)])
qed

lemma generic_null_throws:
  assumes "framed reenter"
    and "recordErrorsLevel e = 0" and "\<not> conformanceOnly e" and "\<not> maxErrorsReached e"
    and "T ''sh:PropertyConstraintComponent'' \<noteq> node (component c)"
    and "validationFunctionOf c = Some vf" and "genericOf c"
    and "genericLoop reenter vf f vs1 c g False e = (Normal b, e1)"
    and "\<not> maxErrorsReached e1"
    and "execute reenter g (vf f (Some v) (paramValue c)) (enter e1) = (Normal JNull, e2)"
  shows "validateNodeAgainstConstraint_body reenter f (vs1 @ v # vs2) c g e =
      (Throw readPathOfNull, snd (createResult c f None (leave e2)))"
proof -
  from genericLoop_frame [OF assms(1,8)] assms(2,3)
  have "recordErrorsLevel e1 = 0" "\<not> conformanceOnly e1" by (simp_all add: frame_def)
  with leave_after_execute [OF assms(1,10)]
  have "recordErrorsLevel (leave e2) = 0" "\<not> conformanceOnly (leave e2)" by simp_all
  from normalise_null [OF this]
  have "normalise JNull c f (Some v) (leave e2) =
      (Throw readPathOfNull, snd (createResult c f None (leave e2)))" .
  with assms(8,9,10)
  have "genericLoop reenter vf f (vs1 @ v # vs2) c g False e =
      (Throw readPathOfNull, snd (createResult c f None (leave e2)))"
    by (simp add: genericLoop_append Let_def)
  with assms(6,7) show ?thesis by (simp add: body_unfold [OF assms(4,5)])
qed

text \<open>
  Claim C9. With recording enabled (\<^verbatim>\<open>recordErrorsLevel\<close> is 0) and conformance-only off,
  the outcome \<^verbatim>\<open>null\<close> takes the object branch of \<^verbatim>\<open>createResultFromObject\<close>, which
  creates the result node and throws the TypeError of reading \<^verbatim>\<open>path\<close> of \<^verbatim>\<open>null\<close>. A
  non-generic validator that returns \<^verbatim>\<open>null\<close>, and a generic validator that returns
  \<^verbatim>\<open>null\<close> at any value node that the loop reaches, make
  \<^verbatim>\<open>validateNodeAgainstConstraint\<close> throw that TypeError. When this happens at a shape,
  a focus node and a constraint that the traversal reaches, at any position,
  \<^verbatim>\<open>validateAll\<close> returns true with the TypeError stored, and the first call of
  \<^verbatim>\<open>getReport\<close> and every later one throws it.
\<close>

theorem null_outcome_raises:
  "(recordErrorsLevel e = 0 \<and> \<not> conformanceOnly e \<longrightarrow>
      createResultFromObject JNull c f valueNode e =
        (Throw readPathOfNull, snd (createResult c f None e))) \<and>
   (recordErrorsLevel e = 0 \<and> \<not> conformanceOnly e \<and> \<not> maxErrorsReached e \<and>
    T ''sh:PropertyConstraintComponent'' \<noteq> node (component c) \<and>
    validationFunctionOf c = Some vf \<and> \<not> genericOf c \<and>
    execute (reentry depth) g (vf f None (paramValue c)) (enter e) = (Normal JNull, e2) \<longrightarrow>
      validateNodeAgainstConstraint depth f vs c g e =
        (Throw readPathOfNull, snd (createResult c f None (leave e2)))) \<and>
   (recordErrorsLevel e = 0 \<and> \<not> conformanceOnly e \<and> \<not> maxErrorsReached e \<and>
    T ''sh:PropertyConstraintComponent'' \<noteq> node (component c) \<and>
    validationFunctionOf c = Some vf \<and> genericOf c \<and>
    genericLoop (reentry depth) vf f vs1 c g False e = (Normal b, e1) \<and>
    \<not> maxErrorsReached e1 \<and>
    execute (reentry depth) g (vf f (Some v) (paramValue c)) (enter e1) = (Normal JNull, e2) \<longrightarrow>
      validateNodeAgainstConstraint depth f (vs1 @ v # vs2) c g e =
        (Throw readPathOfNull, snd (createResult c f None (leave e2)))) \<and>
   (recordErrorsLevel e = 0 \<and> \<not> conformanceOnly e \<and> \<not> maxErrorsReached e \<and>
    getShapesWithTarget (ctx e) = ss1 @ s # ss2 \<and>
    shapesLoop depth ss1 g False (e\<lparr>validationError := OtherValue JNull, results := []\<rparr>) =
      (Normal b1, e3) \<and>
    getTargetNodes s g = fs1 @ f # fs2 \<and>
    focusNodesLoop depth fs1 s g b1 e3 = (Normal b2, e4) \<and>
    \<not> maxErrorsReached e4 \<and> \<not> deactivated s \<and> getConstraints s = cs1 @ c # cs2 \<and>
    constraintsLoop (reentry depth) f (getValueNodes s f g) cs1 g False e4 = (Normal b3, e5) \<and>
    \<not> maxErrorsReached e5 \<and>
    T ''sh:PropertyConstraintComponent'' \<noteq> node (component c) \<and>
    validationFunctionOf c = Some vf \<and>
    (if genericOf c
     then (\<exists>ws1 w ws2 b4 e7.
             getValueNodes s f g = ws1 @ w # ws2 \<and>
             genericLoop (reentry depth) vf f ws1 c g False e5 = (Normal b4, e7) \<and>
             \<not> maxErrorsReached e7 \<and>
             execute (reentry depth) g (vf f (Some w) (paramValue c)) (enter e7) =
               (Normal JNull, e6))
     else execute (reentry depth) g (vf f None (paramValue c)) (enter e5) = (Normal JNull, e6)) \<longrightarrow>
      validateAll depth g e =
        (True, (snd (createResult c f None (leave e6)))\<lparr>validationError := readPathOfNull\<rparr>) \<and>
      (\<forall>n. getReportAgain n
              ((snd (createResult c f None (leave e6)))\<lparr>validationError := readPathOfNull\<rparr>) =
             (Throw readPathOfNull,
              (snd (createResult c f None (leave e6)))\<lparr>validationError := readPathOfNull\<rparr>)))"
proof (intro conjI impI allI; (elim conjE)?)
  assume "recordErrorsLevel e = 0" "\<not> conformanceOnly e"
  then show "createResultFromObject JNull c f valueNode e =
        (Throw readPathOfNull, snd (createResult c f None e))"
    by (simp add: suppressed_def split_beta)
next
  assume "recordErrorsLevel e = 0" "\<not> conformanceOnly e" "\<not> maxErrorsReached e"
    "T ''sh:PropertyConstraintComponent'' \<noteq> node (component c)"
    "validationFunctionOf c = Some vf" "\<not> genericOf c"
    "execute (reentry depth) g (vf f None (paramValue c)) (enter e) = (Normal JNull, e2)"
  then show "validateNodeAgainstConstraint depth f vs c g e =
        (Throw readPathOfNull, snd (createResult c f None (leave e2)))"
    unfolding validateNodeAgainstConstraint_def
    by (rule nongeneric_null_throws [OF reentry_framed])
next
  assume "recordErrorsLevel e = 0" "\<not> conformanceOnly e" "\<not> maxErrorsReached e"
    "T ''sh:PropertyConstraintComponent'' \<noteq> node (component c)"
    "validationFunctionOf c = Some vf" "genericOf c"
    "genericLoop (reentry depth) vf f vs1 c g False e = (Normal b, e1)"
    "\<not> maxErrorsReached e1"
    "execute (reentry depth) g (vf f (Some v) (paramValue c)) (enter e1) = (Normal JNull, e2)"
  then show "validateNodeAgainstConstraint depth f (vs1 @ v # vs2) c g e =
        (Throw readPathOfNull, snd (createResult c f None (leave e2)))"
    unfolding validateNodeAgainstConstraint_def
    by (rule generic_null_throws [OF reentry_framed])
next
  assume a: "recordErrorsLevel e = 0" "\<not> conformanceOnly e" "\<not> maxErrorsReached e"
    "getShapesWithTarget (ctx e) = ss1 @ s # ss2"
    "shapesLoop depth ss1 g False (e\<lparr>validationError := OtherValue JNull, results := []\<rparr>) =
      (Normal b1, e3)"
    "getTargetNodes s g = fs1 @ f # fs2"
    "focusNodesLoop depth fs1 s g b1 e3 = (Normal b2, e4)"
    "\<not> maxErrorsReached e4" "\<not> deactivated s" "getConstraints s = cs1 @ c # cs2"
    "constraintsLoop (reentry depth) f (getValueNodes s f g) cs1 g False e4 = (Normal b3, e5)"
    "\<not> maxErrorsReached e5"
    "T ''sh:PropertyConstraintComponent'' \<noteq> node (component c)"
    "validationFunctionOf c = Some vf"
    "if genericOf c
     then (\<exists>ws1 w ws2 b4 e7.
             getValueNodes s f g = ws1 @ w # ws2 \<and>
             genericLoop (reentry depth) vf f ws1 c g False e5 = (Normal b4, e7) \<and>
             \<not> maxErrorsReached e7 \<and>
             execute (reentry depth) g (vf f (Some w) (paramValue c)) (enter e7) =
               (Normal JNull, e6))
     else execute (reentry depth) g (vf f None (paramValue c)) (enter e5) = (Normal JNull, e6)"
  let ?e' = "snd (createResult c f None (leave e6))"
  from shapesLoop_frame [OF a(5)] focusNodesLoop_frame [OF a(7)]
    constraintsLoop_frame [OF reentry_framed a(11)] a(1,2)
  have level: "recordErrorsLevel e5 = 0" and conf: "\<not> conformanceOnly e5"
    by (simp_all add: frame_def)
  have "validateNodeAgainstConstraint_body (reentry depth) f (getValueNodes s f g) c g e5 =
      (Throw readPathOfNull, ?e')"
  proof (cases "genericOf c")
    case True
    with a(15) obtain ws1 w ws2 b4 e7 where w: "getValueNodes s f g = ws1 @ w # ws2"
      "genericLoop (reentry depth) vf f ws1 c g False e5 = (Normal b4, e7)"
      "\<not> maxErrorsReached e7"
      "execute (reentry depth) g (vf f (Some w) (paramValue c)) (enter e7) = (Normal JNull, e6)"
      by (auto split: if_splits)
    from generic_null_throws [OF reentry_framed level conf a(12,13,14) True w(2,3,4), of ws2] w(1)
    show ?thesis by simp
  next
    case False
    with a(15) have "execute (reentry depth) g (vf f None (paramValue c)) (enter e5) =
        (Normal JNull, e6)" by (auto split: if_splits)
    from nongeneric_null_throws [OF reentry_framed level conf a(12,13,14) False this]
    show ?thesis .
  qed
  from shape_body_throws [OF a(8,9,10,11) this]
  have "validateNodeAgainstShape depth f s g e4 = (Throw readPathOfNull, ?e')"
    by (simp add: validateNodeAgainstShape_def)
  from validateAll_throws [OF a(3,4,5,6,7) this]
  show "validateAll depth g e = (True, ?e'\<lparr>validationError := readPathOfNull\<rparr>)" .
  fix n
  show "getReportAgain n (?e'\<lparr>validationError := readPathOfNull\<rparr>) =
      (Throw readPathOfNull, ?e'\<lparr>validationError := readPathOfNull\<rparr>)"
    using getReportAgain_stored [of "?e'\<lparr>validationError := readPathOfNull\<rparr>" n] by simp
qed


theorem null_outcome_raises_witness:
  "fst (validateAll 0 [] (exampleEngine nullValidator False False)) = True \<and>
   fst (getReportAgain 0 (snd (validateAll 0 [] (exampleEngine nullValidator False False)))) =
     Throw readPathOfNull \<and>
   fst (getReportAgain 1 (snd (validateAll 0 [] (exampleEngine nullValidator False False)))) =
     Throw readPathOfNull"
proof -
  let ?E = "exampleEngine nullValidator False False"
  let ?c = "exampleConstraint ''http://example.org/S'' nullValidator False"
  let ?s = "exampleShape ''http://example.org/S'' [?c]"
  let ?a = "NamedNode ''http://example.org/a''"
  let ?b = "NamedNode ''http://example.org/b''"
  let ?e0 = "?E\<lparr>validationError := OtherValue JNull, results := []\<rparr>"
  let ?first = "focusNodesLoop 0 [?a] ?s [] False ?e0"
  let ?e4 = "snd ?first"
  have start: "recordErrorsLevel ?E = 0" "\<not> conformanceOnly ?E"
    by (simp_all add: exampleEngine_def newValidationEngine_def)
  have notmax: "\<not> maxErrorsReached ?E" by code_simp
  have shapes: "getShapesWithTarget (ctx ?E) = [] @ ?s # []"
    by (simp add: exampleEngine_def newValidationEngine_def exampleContext_def)
  have before: "shapesLoop 0 [] [] False ?e0 = (Normal False, ?e0)" by simp
  have targets: "getTargetNodes ?s [] = [?a] @ ?b # []" by (simp add: exampleShape_def)
  have "fst ?first = Normal False" by code_simp
  then have first: "?first = (Normal False, ?e4)" by (metis prod.collapse)
  have notmax4: "\<not> maxErrorsReached ?e4" by code_simp
  have s: "\<not> deactivated ?s" "getConstraints ?s = [] @ ?c # []"
    by (simp_all add: exampleShape_def)
  have loop0: "constraintsLoop (reentry 0) ?b (getValueNodes ?s ?b []) [] [] False ?e4 =
      (Normal False, ?e4)" by simp
  have c: "T ''sh:PropertyConstraintComponent'' \<noteq> node (component ?c)"
    "validationFunctionOf ?c = Some nullValidator" "\<not> genericOf ?c"
    by (simp_all add: exampleConstraint_def exampleComponent_def exampleHead_def T_def)
  have null: "execute (reentry 0) [] (nullValidator ?b None (paramValue ?c)) (enter ?e4) =
      (Normal JNull, enter ?e4)"
    by (simp add: nullValidator_def)
  from c(3) null
  have origin: "if genericOf ?c
     then (\<exists>ws1 w ws2 b4 e7.
             getValueNodes ?s ?b [] = ws1 @ w # ws2 \<and>
             genericLoop (reentry 0) nullValidator ?b ws1 ?c [] False ?e4 = (Normal b4, e7) \<and>
             \<not> maxErrorsReached e7 \<and>
             execute (reentry 0) [] (nullValidator ?b (Some w) (paramValue ?c)) (enter e7) =
               (Normal JNull, enter ?e4))
     else execute (reentry 0) [] (nullValidator ?b None (paramValue ?c)) (enter ?e4) =
            (Normal JNull, enter ?e4)"
    by simp
  from null_outcome_raises [where depth = 0 and g = "[]" and e = ?E and ?ss1.0 = "[]"
      and s = ?s and ?ss2.0 = "[]" and ?b1.0 = False and ?e3.0 = ?e0 and ?fs1.0 = "[?a]"
      and f = ?b and ?fs2.0 = "[]" and ?b2.0 = False and ?e4.0 = ?e4 and ?cs1.0 = "[]"
      and c = ?c and ?cs2.0 = "[]" and ?b3.0 = False and ?e5.0 = ?e4 and vf = nullValidator
      and ?e6.0 = "enter ?e4"]
    start notmax shapes before targets first notmax4 s loop0 c(1,2) origin
  have "validateAll 0 [] ?E =
      (True, (snd (createResult ?c ?b None (leave (enter ?e4))))\<lparr>validationError := readPathOfNull\<rparr>) \<and>
      (\<forall>n. getReportAgain n
              ((snd (createResult ?c ?b None (leave (enter ?e4))))\<lparr>validationError := readPathOfNull\<rparr>) =
             (Throw readPathOfNull,
              (snd (createResult ?c ?b None (leave (enter ?e4))))\<lparr>validationError := readPathOfNull\<rparr>))"
    by blast
  then show ?thesis by simp
qed

section \<open>The batch limit\<close>




text \<open>
  Claim C5, as amended. With the batch limit reached on entry, \<^verbatim>\<open>validateAll\<close> returns
  true and leaves the engine unchanged. Otherwise the run does not depend on the results
  and the fatal error of earlier runs (both are cleared before any shape is traversed),
  while the violation counter is carried over and can only grow; with no shape to
  traverse the run returns false and changes nothing else.
\<close>

theorem validateAll_resets_results_only:
  "(maxErrorsReached e \<longrightarrow> validateAll depth g e = (True, e)) \<and>
   (\<not> maxErrorsReached e \<longrightarrow>
      validateAll depth g e = validateAll depth g (e\<lparr>validationError := OtherValue JNull, results := []\<rparr>) \<and>
      violationsCount e \<le> violationsCount (snd (validateAll depth g e)) \<and>
      (getShapesWithTarget (ctx e) = [] \<longrightarrow>
         validateAll depth g e = (False, e\<lparr>validationError := OtherValue JNull, results := []\<rparr>)))"
proof -
  let ?e2 = "e\<lparr>validationError := OtherValue JNull, results := []\<rparr>"
  obtain r e3 where run: "shapesLoop depth (getShapesWithTarget (ctx e)) g False ?e2 = (r, e3)"
    by (cases "shapesLoop depth (getShapesWithTarget (ctx e)) g False ?e2")
  from shapesLoop_frame [OF run] have "violationsCount e \<le> violationsCount e3"
    by (simp add: frame_def)
  with run have "\<not> maxErrorsReached e \<longrightarrow> violationsCount e \<le> violationsCount (snd (validateAll depth g e))"
    by (cases r) (simp_all add: validateAll_def)
  then show ?thesis
    by (simp add: validateAll_def maxErrorsReached_def)
qed

theorem validateAll_resets_results_only_witness:
  "\<not> maxErrorsReached (exampleEngine failingValidator True False) \<and>
   violationsCount (exampleEngine failingValidator True False) \<le>
     violationsCount (snd (validateAll 0 [] (exampleEngine failingValidator True False))) \<and>
   fst (validateAll 0 [] reachedEngine) = True"
  using validateAll_resets_results_only [of "exampleEngine failingValidator True False" 0 "[]"]
    validateAll_resets_results_only [of reachedEngine 0 "[]"]
  by (simp add: maxErrorsReached_def reachedEngine_def exampleEngine_def newValidationEngine_def)

text \<open>
  Claim C5 as stated fails: a second run on the same engine starts from the counter the
  first run left (2), and ends at 4.
\<close>

theorem validateAll_counter_counterexample:
  "violationsCount (snd (validateAll 0 [] (exampleEngine failingValidator True False))) = 2 \<and>
   \<not> maxErrorsReached (snd (validateAll 0 [] (exampleEngine failingValidator True False))) \<and>
   violationsCount (snd (validateAll 0 []
      (snd (validateAll 0 [] (exampleEngine failingValidator True False))))) = 4"
  by code_simp

section \<open>Suppressed recording and conformance-only mode\<close>

lemma createResultFromObject_suppressed_result:
  "0 < recordErrorsLevel e \<Longrightarrow>
   createResultFromObject obj c f v e = (Normal (\<not> conformanceOnly e \<and> isViolation obj), e)"
  by (cases "(obj, c, f, v, e)" rule: createResultFromObject.cases)
     (auto simp add: suppressed_level)

lemma arrayLoop_suppressed:
  "0 < recordErrorsLevel e \<Longrightarrow>
   arrayLoop objs c f v acc e =
     (Normal (acc \<or> (\<not> conformanceOnly e \<and> list_ex isViolation objs)), e)"
  by (induction objs arbitrary: acc)
     (auto simp add: createResultFromObject_suppressed_result simp del: createResultFromObject.simps)

lemma normalise_suppressed:
  "0 < recordErrorsLevel e \<Longrightarrow>
   normalise obj c f v e = (Normal (\<not> conformanceOnly e \<and> reportsViolation obj), e)"
  unfolding normalise_def reportsViolation_def
  by (cases obj)
     (simp_all add: createResultFromObject_suppressed_result arrayLoop_suppressed
        del: createResultFromObject.simps)

lemma nongeneric_suppressed_boolean:
  assumes "0 < recordErrorsLevel e" and "\<not> conformanceOnly e" and "\<not> maxErrorsReached e"
    and "T ''sh:PropertyConstraintComponent'' \<noteq> node (component c)"
    and "validationFunctionOf c = Some vf" and "\<not> genericOf c"
    and "execute (reentry depth) g (vf f None (paramValue c)) (enter e) = (Normal out, e2)"
  shows "validateNodeAgainstConstraint depth f vs c g e = (Normal (reportsViolation out), leave e2)"
proof -
  from leave_after_execute [OF reentry_framed assms(7)] assms(1,2)
  have "0 < recordErrorsLevel (leave e2)" "\<not> conformanceOnly (leave e2)" by simp_all
  from normalise_suppressed [OF this(1), of out c f None] this(2) assms(5,6,7)
  show ?thesis
    by (simp add: validateNodeAgainstConstraint_def body_unfold [OF assms(3,4)])
qed

lemma leave_enter: "leave (enter e) = e"
  by simp

lemma maxErrorsReached_unlimited: "validationErrorBatch e = - 1 \<Longrightarrow> \<not> maxErrorsReached e"
  by (simp add: maxErrorsReached_def)

lemma genericLoop_suppressed:
  assumes "\<forall>w \<in> set vs. vf f (Some w) (paramValue c) = Return (outcome w)"
  shows "0 < recordErrorsLevel e \<Longrightarrow> \<not> conformanceOnly e \<Longrightarrow> validationErrorBatch e = - 1 \<Longrightarrow>
    genericLoop reenter vf f vs c g acc e =
      (Normal (acc \<or> list_ex (\<lambda>w. reportsViolation (outcome w)) vs),
       e\<lparr>violationsCount :=
           violationsCount e + int (length (filter (\<lambda>w. reportsViolation (outcome w)) vs))\<rparr>)"
  using assms
proof (induction vs arbitrary: acc e)
  case Nil
  show ?case by simp
next
  case (Cons w vs)
  let ?it = "reportsViolation (outcome w)"
  let ?e5 = "if ?it then e\<lparr>violationsCount := violationsCount e + 1\<rparr> else e"
  have notmax: "\<not> maxErrorsReached e" using Cons.prems(3) by (rule maxErrorsReached_unlimited)
  have ret: "vf f (Some w) (paramValue c) = Return (outcome w)" using Cons.prems(4) by simp
  have norm: "normalise (outcome w) c f (Some w) e = (Normal ?it, e)"
    using normalise_suppressed [OF Cons.prems(1), of "outcome w" c f "Some w"] Cons.prems(2)
    by simp
  have step: "genericLoop reenter vf f (w # vs) c g acc e =
      genericLoop reenter vf f vs c g (acc \<or> ?it) ?e5"
    using notmax ret norm by (simp add: Let_def)
  have e5: "0 < recordErrorsLevel ?e5" "\<not> conformanceOnly ?e5" "validationErrorBatch ?e5 = - 1"
    using Cons.prems(1,2,3) by simp_all
  have rest: "\<forall>w \<in> set vs. vf f (Some w) (paramValue c) = Return (outcome w)"
    using Cons.prems(4) by simp
  show ?case
    unfolding step Cons.IH [OF e5 rest]
    by (cases ?it) (simp_all add: add.assoc)
qed

lemma generic_suppressed_boolean:
  assumes "0 < recordErrorsLevel e" and "\<not> conformanceOnly e" and "validationErrorBatch e = - 1"
    and "T ''sh:PropertyConstraintComponent'' \<noteq> node (component c)"
    and "validationFunctionOf c = Some vf" and "genericOf c"
    and "\<forall>w \<in> set vs. vf f (Some w) (paramValue c) = Return (outcome w)"
  shows "validateNodeAgainstConstraint depth f vs c g e =
      (Normal (list_ex (\<lambda>w. reportsViolation (outcome w)) vs),
       e\<lparr>violationsCount :=
           violationsCount e + int (length (filter (\<lambda>w. reportsViolation (outcome w)) vs))\<rparr>)"
  using assms(5,6)
    genericLoop_suppressed [where outcome = outcome and reenter = "reentry depth" and g = g
      and acc = False and vf = vf and f = f and c = c and vs = vs and e = e, OF assms(7,1,2,3)]
  by (simp add: validateNodeAgainstConstraint_def
      body_unfold [OF maxErrorsReached_unlimited [OF assms(3)] assms(4)])

lemma constraintsLoop_acc:
  "constraintsLoop reenter f vs cs g acc e =
     (case constraintsLoop reenter f vs cs g False e of
        (Normal b, e') \<Rightarrow> (Normal (acc \<or> b), e')
      | (Throw x, e') \<Rightarrow> (Throw x, e'))"
proof (induction cs arbitrary: acc e)
  case Nil
  show ?case by simp
next
  case (Cons c cs)
  obtain r1 e1 where step: "validateNodeAgainstConstraint_body reenter f vs c g e = (r1, e1)"
    by (cases "validateNodeAgainstConstraint_body reenter f vs c g e")
  show ?case
  proof (cases r1)
    case (Throw x)
    with step show ?thesis by simp
  next
    case (Normal b)
    obtain r2 e2 where rest: "constraintsLoop reenter f vs cs g False e1 = (r2, e2)"
      by (cases "constraintsLoop reenter f vs cs g False e1")
    have one: "constraintsLoop reenter f vs cs g (acc \<or> b) e1 =
        (case (r2, e2) of (Normal b', e') \<Rightarrow> (Normal ((acc \<or> b) \<or> b'), e')
                        | (Throw x, e') \<Rightarrow> (Throw x, e'))"
      using Cons.IH [of "acc \<or> b" e1] rest by simp
    have two: "constraintsLoop reenter f vs cs g b e1 =
        (case (r2, e2) of (Normal b', e') \<Rightarrow> (Normal (b \<or> b'), e')
                        | (Throw x, e') \<Rightarrow> (Throw x, e'))"
      using Cons.IH [of b e1] rest by simp
    from step Normal one two show ?thesis by (cases r2) simp_all
  qed
qed

lemma shape_boolean_or:
  assumes "\<not> maxErrorsReached e" and "\<not> deactivated s" and "getConstraints s = c # cs"
    and "validateNodeAgainstConstraint depth f (getValueNodes s f g) c g e = (Normal b, e1)"
    and "\<not> maxErrorsReached e1"
  shows "validateNodeAgainstShape depth f s g e =
      (case validateNodeAgainstShape depth f (s\<lparr>getConstraints := cs\<rparr>) g e1 of
         (Normal b', e3) \<Rightarrow> (Normal (b \<or> b'), e3)
       | (Throw y, e3) \<Rightarrow> (Throw y, e3))"
proof -
  have left: "validateNodeAgainstShape depth f s g e =
      constraintsLoop (reentry depth) f (getValueNodes s f g) cs g b e1"
    using assms(1,2,3,4)
    by (simp add: validateNodeAgainstShape_def validateNodeAgainstShape_body_def
        validateNodeAgainstConstraint_def)
  have right: "validateNodeAgainstShape depth f (s\<lparr>getConstraints := cs\<rparr>) g e1 =
      constraintsLoop (reentry depth) f (getValueNodes s f g) cs g False e1"
    using assms(2,5)
    by (simp add: validateNodeAgainstShape_def validateNodeAgainstShape_body_def)
  show ?thesis unfolding left right by (rule constraintsLoop_acc)
qed

text \<open>
  Claim C3, as amended. While \<^verbatim>\<open>recordErrorsLevel > 0\<close>, normalising an outcome leaves the
  engine unchanged and, with conformance-only off, answers true exactly for a violation
  outcome; \<^verbatim>\<open>validateNodeAgainstConstraint\<close> and \<^verbatim>\<open>validateNodeAgainstShape\<close> entered at
  such a level add no quad to the results and make no blank node, whether they return or
  throw. With conformance-only off the booleans of the dispatch report the violations:
  for a non-generic validator \<^verbatim>\<open>validateNodeAgainstConstraint\<close> returns whether the
  outcome of the validator reports a violation; for a generic validator that returns an
  outcome at every value node, with no batch limit, it returns whether the outcome at
  some value node reports a violation, and the violation counter grows by the number of
  such value nodes; and \<^verbatim>\<open>validateNodeAgainstShape\<close> returns false for a shape without
  constraints and otherwise the disjunction of the boolean of the first constraint and
  the boolean of the remaining ones.
\<close>

theorem suppressed_evaluation_allocates_nothing:
  assumes "0 < recordErrorsLevel e"
  shows "createResultFromObject obj c f v e = (Normal (\<not> conformanceOnly e \<and> isViolation obj), e) \<and>
     (validateNodeAgainstConstraint depth f vs c g e = (r, e') \<longrightarrow>
        results e' = results e \<and> blankNodes e' = blankNodes e) \<and>
     (validateNodeAgainstShape depth f s g e = (r, e'') \<longrightarrow>
        results e'' = results e \<and> blankNodes e'' = blankNodes e) \<and>
     (\<not> conformanceOnly e \<and> \<not> maxErrorsReached e \<and>
      T ''sh:PropertyConstraintComponent'' \<noteq> node (component c) \<and>
      validationFunctionOf c = Some vf \<and> \<not> genericOf c \<and>
      execute (reentry depth) g (vf f None (paramValue c)) (enter e) = (Normal out, e2) \<longrightarrow>
        validateNodeAgainstConstraint depth f vs c g e = (Normal (reportsViolation out), leave e2)) \<and>
     (\<not> conformanceOnly e \<and> validationErrorBatch e = - 1 \<and>
      T ''sh:PropertyConstraintComponent'' \<noteq> node (component c) \<and>
      validationFunctionOf c = Some vf \<and> genericOf c \<and>
      (\<forall>w \<in> set vs. vf f (Some w) (paramValue c) = Return (outcome w)) \<longrightarrow>
        validateNodeAgainstConstraint depth f vs c g e =
          (Normal (list_ex (\<lambda>w. reportsViolation (outcome w)) vs),
           e\<lparr>violationsCount :=
               violationsCount e +
               int (length (filter (\<lambda>w. reportsViolation (outcome w)) vs))\<rparr>)) \<and>
     (\<not> maxErrorsReached e \<and> \<not> deactivated s \<and> getConstraints s = c # cs \<and>
      validateNodeAgainstConstraint depth f (getValueNodes s f g) c g e = (Normal b, e1) \<and>
      \<not> maxErrorsReached e1 \<longrightarrow>
        validateNodeAgainstShape depth f s g e =
          (case validateNodeAgainstShape depth f (s\<lparr>getConstraints := cs\<rparr>) g e1 of
             (Normal b', e3) \<Rightarrow> (Normal (b \<or> b'), e3)
           | (Throw y, e3) \<Rightarrow> (Throw y, e3))) \<and>
     (\<not> maxErrorsReached e \<and> \<not> deactivated s \<and> getConstraints s = [] \<longrightarrow>
        validateNodeAgainstShape depth f s g e = (Normal False, e))"
proof (intro conjI impI; (elim conjE)?)
  show "createResultFromObject obj c f v e = (Normal (\<not> conformanceOnly e \<and> isViolation obj), e)"
    using assms by (rule createResultFromObject_suppressed_result)
next
  assume "validateNodeAgainstConstraint depth f vs c g e = (r, e')"
  from validateNodeAgainstConstraint_frame [OF this] assms
  show "results e' = results e" and "blankNodes e' = blankNodes e" by (simp_all add: frame_def)
next
  assume "validateNodeAgainstShape depth f s g e = (r, e'')"
  from validateNodeAgainstShape_frame [OF this] assms
  show "results e'' = results e" and "blankNodes e'' = blankNodes e" by (simp_all add: frame_def)
next
  assume "\<not> conformanceOnly e" "\<not> maxErrorsReached e"
    "T ''sh:PropertyConstraintComponent'' \<noteq> node (component c)"
    "validationFunctionOf c = Some vf" "\<not> genericOf c"
    "execute (reentry depth) g (vf f None (paramValue c)) (enter e) = (Normal out, e2)"
  with assms
  show "validateNodeAgainstConstraint depth f vs c g e = (Normal (reportsViolation out), leave e2)"
    by (rule nongeneric_suppressed_boolean)
next
  assume "\<not> conformanceOnly e" "validationErrorBatch e = - 1"
    "T ''sh:PropertyConstraintComponent'' \<noteq> node (component c)"
    "validationFunctionOf c = Some vf" "genericOf c"
    "\<forall>w \<in> set vs. vf f (Some w) (paramValue c) = Return (outcome w)"
  with assms
  show "validateNodeAgainstConstraint depth f vs c g e =
          (Normal (list_ex (\<lambda>w. reportsViolation (outcome w)) vs),
           e\<lparr>violationsCount :=
               violationsCount e +
               int (length (filter (\<lambda>w. reportsViolation (outcome w)) vs))\<rparr>)"
    by (rule generic_suppressed_boolean)
next
  assume "\<not> maxErrorsReached e" "\<not> deactivated s" "getConstraints s = c # cs"
    "validateNodeAgainstConstraint depth f (getValueNodes s f g) c g e = (Normal b, e1)"
    "\<not> maxErrorsReached e1"
  then show "validateNodeAgainstShape depth f s g e =
          (case validateNodeAgainstShape depth f (s\<lparr>getConstraints := cs\<rparr>) g e1 of
             (Normal b', e3) \<Rightarrow> (Normal (b \<or> b'), e3)
           | (Throw y, e3) \<Rightarrow> (Throw y, e3))"
    by (rule shape_boolean_or)
next
  assume "\<not> maxErrorsReached e" "\<not> deactivated s" "getConstraints s = []"
  then show "validateNodeAgainstShape depth f s g e = (Normal False, e)"
    by (simp add: validateNodeAgainstShape_def validateNodeAgainstShape_body_def)
qed

theorem suppressed_evaluation_allocates_nothing_witness:
  "0 < recordErrorsLevel suppressedEngine \<and>
   createResultFromObject (JBool False) (exampleConstraint ''http://example.org/S'' failingValidator True)
     (NamedNode ''http://example.org/a'') None suppressedEngine = (Normal True, suppressedEngine) \<and>
   results (snd (validateNodeAgainstConstraint 0 (NamedNode ''http://example.org/a'')
       [NamedNode ''http://example.org/a'']
       (exampleConstraint ''http://example.org/S'' failingValidator True) [] suppressedEngine)) = [] \<and>
   fst (validateNodeAgainstConstraint 0 (NamedNode ''http://example.org/a'')
       [NamedNode ''http://example.org/a'']
       (exampleConstraint ''http://example.org/S'' failingValidator True) [] suppressedEngine) =
     Normal True"
proof -
  let ?c = "exampleConstraint ''http://example.org/S'' failingValidator True"
  let ?a = "NamedNode ''http://example.org/a''"
  let ?run = "validateNodeAgainstConstraint 0 ?a [?a] ?c [] suppressedEngine"
  have level: "0 < recordErrorsLevel suppressedEngine"
    by (simp add: suppressedEngine_def)
  have conf: "\<not> conformanceOnly suppressedEngine" "results suppressedEngine = []"
    "validationErrorBatch suppressedEngine = - 1"
    by (simp_all add: suppressedEngine_def exampleEngine_def newValidationEngine_def)
  have c: "T ''sh:PropertyConstraintComponent'' \<noteq> node (component ?c)"
    "validationFunctionOf ?c = Some failingValidator" "genericOf ?c"
    "\<forall>w \<in> set [?a]. failingValidator ?a (Some w) (paramValue ?c) = Return (JBool False)"
    by (simp_all add: exampleConstraint_def exampleComponent_def exampleHead_def T_def
        failingValidator_def)
  have run: "?run = (fst ?run, snd ?run)" by simp
  from suppressed_evaluation_allocates_nothing
    [OF level, where obj = "JBool False" and c = ?c and f = ?a and v = None and depth = 0
       and vs = "[?a]" and g = "[]" and r = "fst ?run" and e' = "snd ?run"
       and vf = failingValidator and outcome = "\<lambda>w. JBool False"]
    run level conf c
  show ?thesis by (simp add: reportsViolation_def)
qed

text \<open>
  Claim C3 as stated fails: the generic branch increments the violation counter at
  \<^verbatim>\<open>recordErrorsLevel = 1\<close>. In a whole run with an \<^verbatim>\<open>sh:node\<close>-like validator the
  counter ends at 2, all of it counted inside the suppressed evaluations of the nested
  shape.
\<close>

theorem suppressed_counter_counterexample:
  "recordErrorsLevel suppressedEngine = 1 \<and> violationsCount suppressedEngine = 0 \<and>
   violationsCount (snd (validateNodeAgainstConstraint 0 (NamedNode ''http://example.org/a'')
       [NamedNode ''http://example.org/a'']
       (exampleConstraint ''http://example.org/S'' failingValidator True) [] suppressedEngine)) = 1 \<and>
   violationsCount (snd (validateAll 1 [] (exampleEngine conformsValidator False False))) = 2"
  by code_simp

text \<open>
  Claim C4, on the code: the same shapes and data give true and two results with
  conformance-only off, and false and no result with conformance-only on.
\<close>

theorem conformanceOnly_reports_no_violation:
  "fst (validateAll 0 [] (exampleEngine failingValidator False False)) = True \<and>
   length (resultNodes (results (snd (validateAll 0 [] (exampleEngine failingValidator False False))))) = 2 \<and>
   fst (validateAll 0 [] (exampleEngine failingValidator False True)) = False \<and>
   results (snd (validateAll 0 [] (exampleEngine failingValidator False True))) = []"
  by code_simp

section \<open>Property constraints and the source shape of results\<close>

lemma T_values:
  "T ''rdf:type'' = NamedNode ''http://www.w3.org/1999/02/22-rdf-syntax-ns#type''"
  "T ''sh:ValidationResult'' = NamedNode ''http://www.w3.org/ns/shacl#ValidationResult''"
  "T ''sh:resultSeverity'' = NamedNode ''http://www.w3.org/ns/shacl#resultSeverity''"
  "T ''sh:sourceConstraintComponent'' = NamedNode ''http://www.w3.org/ns/shacl#sourceConstraintComponent''"
  "T ''sh:sourceShape'' = NamedNode ''http://www.w3.org/ns/shacl#sourceShape''"
  "T ''sh:focusNode'' = NamedNode ''http://www.w3.org/ns/shacl#focusNode''"
  "T ''sh:value'' = NamedNode ''http://www.w3.org/ns/shacl#value''"
  "T ''sh:resultPath'' = NamedNode ''http://www.w3.org/ns/shacl#resultPath''"
  "T ''sh:resultMessage'' = NamedNode ''http://www.w3.org/ns/shacl#resultMessage''"
  by (simp_all add: T_def)




lemma attributed_result:
  "attributed n [(s, T ''rdf:type'', T ''sh:ValidationResult''), (s, T ''sh:sourceShape'', n)]"
  by (simp add: attributed_def sourceShapes_def resultNodes_def T_values)































end
